theory Spec2Isabelle
  imports Complex_Main
begin

section \<open>JavaScript values\<close>

text \<open>
  The upstream payload is the result of \<^verbatim>\<open>response.json()\<close> and is typed \<^verbatim>\<open>any\<close> in the
  source, so it is modelled as an untyped JavaScript value. A number is the rational
  it denotes. An object is the list of its own properties in enumeration order.
  \<open>JUndefined\<close> is what reading a missing property gives; it never occurs inside a
  parsed payload.
\<close>

datatype jsval =
    JUndefined
  | JNull
  | JBool bool
  | JNum rat
  | JStr string
  | JArr "jsval list"
  | JObj "(string \<times> jsval) list"

datatype js_error = TypeError

text \<open>
  What the model takes from the JavaScript runtime rather than defining: the
  rendering of a number that is not an integer below \<open>2^53\<close> in magnitude (a
  floating-point algorithm), the numeric reading of a string compared with zero,
  \<^verbatim>\<open>JSON.parse\<close> (\<open>Inl\<close> carries the message of the SyntaxError),
  \<^verbatim>\<open>Buffer.toString("base64")\<close>, \<^verbatim>\<open>encodeURIComponent\<close> and the clock.
\<close>

record runtime =
  number_to_string :: "rat \<Rightarrow> string"
  string_gt_zero :: "string \<Rightarrow> bool"
  JSON_parse :: "string \<Rightarrow> string + jsval"
  base64 :: "string \<Rightarrow> string"
  encodeURIComponent :: "string \<Rightarrow> string"
  now_iso :: string

subsection \<open>Truthiness, property reads, \<^verbatim>\<open>||\<close>\<close>

fun truthy :: "jsval \<Rightarrow> bool" where
  "truthy JUndefined = False"
| "truthy JNull = False"
| "truthy (JBool b) = b"
| "truthy (JNum q) = (q \<noteq> 0)"
| "truthy (JStr s) = (s \<noteq> [])"
| "truthy (JArr xs) = True"
| "truthy (JObj kvs) = True"

fun nullish :: "jsval \<Rightarrow> bool" where
  "nullish JUndefined = True"
| "nullish JNull = True"
| "nullish v = False"

fun is_array :: "jsval \<Rightarrow> bool" where
  "is_array (JArr xs) = True"
| "is_array v = False"

text \<open>
  \<open>read_prop v k\<close> is \<^verbatim>\<open>v.k\<close> for a value that is neither null nor undefined, for the
  property names the source reads: an object gives its own property, an array and a
  string give their \<^verbatim>\<open>length\<close>, and nothing else has any of these names.
  \<open>get\<close> is the read as the source performs it: on null and undefined it throws.
\<close>

fun read_prop :: "jsval \<Rightarrow> string \<Rightarrow> jsval" where
  "read_prop (JObj kvs) k = (case map_of kvs k of Some v \<Rightarrow> v | None \<Rightarrow> JUndefined)"
| "read_prop (JArr xs) k = (if k = ''length'' then JNum (of_nat (length xs)) else JUndefined)"
| "read_prop (JStr s) k = (if k = ''length'' then JNum (of_nat (length s)) else JUndefined)"
| "read_prop v k = JUndefined"

definition get :: "jsval \<Rightarrow> string \<Rightarrow> js_error + jsval" where
  "get v k = (if nullish v then Inl TypeError else Inr (read_prop v k))"

text \<open>\<^verbatim>\<open>v[0]\<close> for a value that is neither null nor undefined.\<close>

fun elem0 :: "jsval \<Rightarrow> jsval" where
  "elem0 (JArr xs) = (case xs of [] \<Rightarrow> JUndefined | x # rest \<Rightarrow> x)"
| "elem0 (JStr s) = (case s of [] \<Rightarrow> JUndefined | c # rest \<Rightarrow> JStr [c])"
| "elem0 (JObj kvs) = (case map_of kvs ''0'' of Some v \<Rightarrow> v | None \<Rightarrow> JUndefined)"
| "elem0 v = JUndefined"

text \<open>\<^verbatim>\<open>a || b\<close> and \<^verbatim>\<open>v?.length\<close>.\<close>

definition or_else :: "jsval \<Rightarrow> jsval \<Rightarrow> jsval" where
  "or_else a b = (if truthy a then a else b)"

definition opt_length :: "jsval \<Rightarrow> jsval" where
  "opt_length v = (if nullish v then JUndefined else read_prop v ''length'')"

subsection \<open>Conversion to string\<close>

definition digit_char :: "nat \<Rightarrow> char" where
  "digit_char n = ''0123456789'' ! n"

function show_nat :: "nat \<Rightarrow> string" where
  "show_nat n =
     (if n < 10 then [digit_char n] else show_nat (n div 10) @ [digit_char (n mod 10)])"
  by pat_completeness auto
termination
  by (relation "measure (\<lambda>n. n)") auto

declare show_nat.simps [simp del]

definition is_integer :: "rat \<Rightarrow> bool" where
  "is_integer q = (of_int \<lfloor>q\<rfloor> = q)"

text \<open>
  \<^verbatim>\<open>Number::toString\<close>: an integer of magnitude below \<open>2^53\<close> prints as its decimal digits;
  every other number is rendered by the runtime.
\<close>

definition NumberToString :: "runtime \<Rightarrow> rat \<Rightarrow> string" where
  "NumberToString rt q =
     (if is_integer q \<and> \<bar>q\<bar> < 2 ^ 53
      then (if q < 0 then ''-'' else '''') @ show_nat (nat \<bar>\<lfloor>q\<rfloor>\<bar>)
      else number_to_string rt q)"

fun join_strings :: "string \<Rightarrow> string list \<Rightarrow> string" where
  "join_strings sep [] = ''''"
| "join_strings sep [s] = s"
| "join_strings sep (s # t # rest) = s @ sep @ join_strings sep (t # rest)"

text \<open>
  \<^verbatim>\<open>ToString\<close>, as applied by a template literal and by \<^verbatim>\<open>Array.prototype.join\<close>.
  An array prints as its elements joined by a comma, null and undefined elements
  printing as the empty string. A plain object prints as \<^verbatim>\<open>[object Object]\<close>,
  unless it has an own property \<^verbatim>\<open>toString\<close>: a parsed value is never callable, so
  the conversion then finds no usable method and throws.
\<close>

fun ToString :: "runtime \<Rightarrow> jsval \<Rightarrow> js_error + string"
  and join_elements :: "runtime \<Rightarrow> jsval list \<Rightarrow> js_error + string list" where
  "ToString rt JUndefined = Inr ''undefined''"
| "ToString rt JNull = Inr ''null''"
| "ToString rt (JBool b) = Inr (if b then ''true'' else ''false'')"
| "ToString rt (JNum q) = Inr (NumberToString rt q)"
| "ToString rt (JStr s) = Inr s"
| "ToString rt (JArr xs) =
     (case join_elements rt xs of Inl e \<Rightarrow> Inl e | Inr ss \<Rightarrow> Inr (join_strings '','' ss))"
| "ToString rt (JObj kvs) =
     (if map_of kvs ''toString'' \<noteq> None then Inl TypeError else Inr ''[object Object]'')"
| "join_elements rt [] = Inr []"
| "join_elements rt (x # xs) =
     (case (if nullish x then Inr '''' else ToString rt x) of
        Inl e \<Rightarrow> Inl e
      | Inr s \<Rightarrow> (case join_elements rt xs of Inl e \<Rightarrow> Inl e | Inr ss \<Rightarrow> Inr (s # ss)))"

definition join :: "runtime \<Rightarrow> string \<Rightarrow> jsval list \<Rightarrow> js_error + string" where
  "join rt sep xs =
     (case join_elements rt xs of Inl e \<Rightarrow> Inl e | Inr ss \<Rightarrow> Inr (join_strings sep ss))"

text \<open>
  \<^verbatim>\<open>v > 0\<close>: the value is converted to a number. Undefined and an object without a
  numeric reading give NaN, null gives 0, a boolean 0 or 1; a string is read by the
  runtime, and an array is first printed as a string.
\<close>

fun gt_zero :: "runtime \<Rightarrow> jsval \<Rightarrow> js_error + bool" where
  "gt_zero rt JUndefined = Inr False"
| "gt_zero rt JNull = Inr False"
| "gt_zero rt (JBool b) = Inr b"
| "gt_zero rt (JNum q) = Inr (0 < q)"
| "gt_zero rt (JStr s) = Inr (string_gt_zero rt s)"
| "gt_zero rt (JArr xs) =
     (case ToString rt (JArr xs) of Inl e \<Rightarrow> Inl e | Inr s \<Rightarrow> Inr (string_gt_zero rt s))"
| "gt_zero rt (JObj kvs) =
     (if map_of kvs ''toString'' \<noteq> None then Inl TypeError else Inr False)"

text \<open>\<^verbatim>\<open>xs.map(f)\<close> for a callback that may throw: the first exception ends the loop.\<close>

fun map_throwing :: "('a \<Rightarrow> js_error + 'b) \<Rightarrow> 'a list \<Rightarrow> js_error + 'b list" where
  "map_throwing f [] = Inr []"
| "map_throwing f (x # xs) =
     (case f x of
        Inl e \<Rightarrow> Inl e
      | Inr y \<Rightarrow> (case map_throwing f xs of Inl e \<Rightarrow> Inl e | Inr ys \<Rightarrow> Inr (y # ys)))"

text \<open>
  The guard \<^verbatim>\<open>result.predictions && result.predictions.length > 0\<close>, shared by both
  normalization functions.
\<close>

definition has_predictions :: "runtime \<Rightarrow> jsval \<Rightarrow> js_error + bool" where
  "has_predictions rt result =
     (case get result ''predictions'' of
        Inl e \<Rightarrow> Inl e
      | Inr predictions \<Rightarrow>
          if truthy predictions then gt_zero rt (read_prop predictions ''length'') else Inr False)"

section \<open>Normalization of the upstream payload\<close>

text \<open>
  A read \<^verbatim>\<open>x.f\<close> throws exactly when \<open>x\<close> is null or undefined, whatever \<open>f\<close> is.
  So a callback that reads several properties of the same value is written with one
  test of \<open>nullish\<close> followed by \<open>read_prop\<close>.
\<close>

subsection \<open>\<^verbatim>\<open>extractTextFromResult\<close>\<close>

text \<open>\<^verbatim>\<open>(segment) => segment.text || segment\<close>\<close>

definition segment_text :: "jsval \<Rightarrow> js_error + jsval" where
  "segment_text segment =
     (if nullish segment then Inl TypeError
      else Inr (or_else (read_prop segment ''text'') segment))"

text \<open>\<^verbatim>\<open>(region) => region.text || region.value || ""\<close>\<close>

definition region_text :: "jsval \<Rightarrow> js_error + jsval" where
  "region_text region =
     (if nullish region then Inl TypeError
      else Inr (or_else (or_else (read_prop region ''text'') (read_prop region ''value''))
                  (JStr '''')))"

text \<open>\<^verbatim>\<open>xs.map(f).join(" ")\<close>\<close>

definition map_join :: "runtime \<Rightarrow> (jsval \<Rightarrow> js_error + jsval) \<Rightarrow> jsval list \<Rightarrow> js_error + jsval" where
  "map_join rt f xs =
     (case map_throwing f xs of
        Inl e \<Rightarrow> Inl e
      | Inr ys \<Rightarrow> (case join rt '' '' ys of Inl e \<Rightarrow> Inl e | Inr s \<Rightarrow> Inr (JStr s)))"

text \<open>
  The body of the first \<^verbatim>\<open>if\<close>, for \<^verbatim>\<open>prediction = result.predictions[0]\<close>: \<open>Some v\<close>
  is \<^verbatim>\<open>return v\<close>, \<open>None\<close> is falling out of the block. An array is always truthy, so
  \<^verbatim>\<open>p.k && Array.isArray(p.k)\<close> is the test that \<^verbatim>\<open>p.k\<close> is an array.
\<close>

definition text_of_prediction :: "runtime \<Rightarrow> jsval \<Rightarrow> js_error + jsval option" where
  "text_of_prediction rt prediction =
     (if nullish prediction then Inl TypeError
      else if truthy (read_prop prediction ''extracted_text'')
        then Inr (Some (read_prop prediction ''extracted_text''))
      else if truthy (read_prop prediction ''ocr_text'')
        then Inr (Some (read_prop prediction ''ocr_text''))
      else if truthy (read_prop prediction ''text'')
        then Inr (Some (read_prop prediction ''text''))
      else (case read_prop prediction ''text_segments'' of
          JArr segments \<Rightarrow>
            (case map_join rt segment_text segments of Inl e \<Rightarrow> Inl e | Inr v \<Rightarrow> Inr (Some v))
        | other \<Rightarrow>
            (case read_prop prediction ''regions'' of
               JArr regions \<Rightarrow>
                 (case map_join rt region_text regions of Inl e \<Rightarrow> Inl e | Inr v \<Rightarrow> Inr (Some v))
             | other' \<Rightarrow> Inr None)))"

text \<open>The statements after the block: the top-level fields and the default.\<close>

definition text_of_top_level :: "jsval \<Rightarrow> jsval" where
  "text_of_top_level result =
     (if truthy (read_prop result ''text'') then read_prop result ''text''
      else if truthy (read_prop result ''ocr_result'') then read_prop result ''ocr_result''
      else JStr ''No text extracted'')"

text \<open>The body of the \<^verbatim>\<open>try\<close>.\<close>

definition extractText_try :: "runtime \<Rightarrow> jsval \<Rightarrow> js_error + jsval" where
  "extractText_try rt result =
     (case has_predictions rt result of
        Inl e \<Rightarrow> Inl e
      | Inr False \<Rightarrow> Inr (text_of_top_level result)
      | Inr True \<Rightarrow>
          (case text_of_prediction rt (elem0 (read_prop result ''predictions'')) of
             Inl e \<Rightarrow> Inl e
           | Inr (Some v) \<Rightarrow> Inr v
           | Inr None \<Rightarrow> Inr (text_of_top_level result)))"

definition extractTextFromResult :: "runtime \<Rightarrow> jsval \<Rightarrow> jsval" where
  "extractTextFromResult rt result =
     (case extractText_try rt result of
        Inl e \<Rightarrow> JStr ''Error extracting text''
      | Inr v \<Rightarrow> v)"

subsection \<open>\<^verbatim>\<open>extractEntitiesFromResult\<close>\<close>

text \<open>
  The three fields are declared \<^verbatim>\<open>string\<close>, \<^verbatim>\<open>string\<close> and \<^verbatim>\<open>number\<close>, but hold
  whatever the payload held.
\<close>

record entity =
  etype :: jsval
  evalue :: jsval
  confidence :: jsval

definition entity_of :: "jsval \<Rightarrow> js_error + entity" where
  "entity_of e =
     (if nullish e then Inl TypeError
      else Inr \<lparr>
        etype = or_else (or_else (or_else (read_prop e ''type'') (read_prop e ''label''))
                  (read_prop e ''class'')) (JStr ''Unknown''),
        evalue = or_else (or_else (or_else (read_prop e ''value'') (read_prop e ''text''))
                  (read_prop e ''content'')) (JStr ''''),
        confidence = or_else (or_else (or_else (read_prop e ''confidence'') (read_prop e ''score''))
                  (read_prop e ''probability'')) (JNum 0) \<rparr>)"

definition pair_entity :: "jsval \<Rightarrow> js_error + entity" where
  "pair_entity pair =
     (if nullish pair then Inl TypeError
      else Inr \<lparr>
        etype = or_else (read_prop pair ''key'') (JStr ''Key-Value''),
        evalue = or_else (read_prop pair ''value'') (JStr ''''),
        confidence = or_else (read_prop pair ''confidence'') (JNum 0) \<rparr>)"

text \<open>
  \<^verbatim>\<open>table.rows?.length || table.data?.length || 0\<close>, then the template literal
  \<^verbatim>\<open>`Table ${index + 1} (${...} rows)`\<close>.
\<close>

definition row_count :: "jsval \<Rightarrow> jsval" where
  "row_count table =
     or_else (or_else (opt_length (read_prop table ''rows'')) (opt_length (read_prop table ''data'')))
       (JNum 0)"

definition table_entity :: "runtime \<Rightarrow> nat \<Rightarrow> jsval \<Rightarrow> js_error + entity" where
  "table_entity rt index table =
     (if nullish table then Inl TypeError
      else (case ToString rt (row_count table) of
          Inl e \<Rightarrow> Inl e
        | Inr rows \<Rightarrow> Inr \<lparr>
            etype = JStr ''Table'',
            evalue = JStr (''Table '' @ show_nat (index + 1) @ '' ('' @ rows @ '' rows)''),
            confidence = or_else (read_prop table ''confidence'') (JNum 0) \<rparr>))"

definition box_entity :: "nat \<Rightarrow> jsval \<Rightarrow> js_error + entity" where
  "box_entity index box =
     (if nullish box then Inl TypeError
      else Inr \<lparr>
        etype = or_else (or_else (read_prop box ''label'') (read_prop box ''class''))
                  (JStr ''Detection''),
        evalue = or_else (or_else (read_prop box ''text'') (read_prop box ''value''))
                  (JStr (''Detection '' @ show_nat (index + 1))),
        confidence = or_else (or_else (read_prop box ''confidence'') (read_prop box ''score''))
                  (JNum 0) \<rparr>)"

text \<open>\<^verbatim>\<open>xs.forEach((x, index) => entities.push(f(index, x)))\<close>, from a starting index.\<close>

fun each_indexed :: "(nat \<Rightarrow> jsval \<Rightarrow> js_error + entity) \<Rightarrow> nat \<Rightarrow> jsval list \<Rightarrow> js_error + entity list" where
  "each_indexed f i [] = Inr []"
| "each_indexed f i (x # xs) =
     (case f i x of
        Inl e \<Rightarrow> Inl e
      | Inr y \<Rightarrow> (case each_indexed f (Suc i) xs of Inl e \<Rightarrow> Inl e | Inr ys \<Rightarrow> Inr (y # ys)))"

text \<open>
  One \<^verbatim>\<open>if (prediction.k && Array.isArray(prediction.k)) prediction.k.forEach(...)\<close>:
  the entities it pushes, or the exception that leaves the function.
\<close>

definition section_of :: "jsval \<Rightarrow> string \<Rightarrow> (nat \<Rightarrow> jsval \<Rightarrow> js_error + entity) \<Rightarrow> js_error + entity list" where
  "section_of prediction k f =
     (case read_prop prediction k of JArr xs \<Rightarrow> each_indexed f 0 xs | other \<Rightarrow> Inr [])"

definition entities_of_prediction :: "runtime \<Rightarrow> jsval \<Rightarrow> js_error + entity list" where
  "entities_of_prediction rt prediction =
     (if nullish prediction then Inl TypeError
      else (case section_of prediction ''entities'' (\<lambda>index. entity_of) of
          Inl e \<Rightarrow> Inl e
        | Inr es \<Rightarrow>
      (case section_of prediction ''key_value_pairs'' (\<lambda>index. pair_entity) of
          Inl e \<Rightarrow> Inl e
        | Inr ps \<Rightarrow>
      (case section_of prediction ''tables'' (table_entity rt) of
          Inl e \<Rightarrow> Inl e
        | Inr ts \<Rightarrow>
      (case section_of prediction ''bounding_boxes'' box_entity of
          Inl e \<Rightarrow> Inl e
        | Inr bs \<Rightarrow> Inr (es @ ps @ ts @ bs))))))"

definition extractEntities_try :: "runtime \<Rightarrow> jsval \<Rightarrow> js_error + entity list" where
  "extractEntities_try rt result =
     (case has_predictions rt result of
        Inl e \<Rightarrow> Inl e
      | Inr False \<Rightarrow> Inr []
      | Inr True \<Rightarrow> entities_of_prediction rt (elem0 (read_prop result ''predictions'')))"

definition extractEntitiesFromResult :: "runtime \<Rightarrow> jsval \<Rightarrow> entity list" where
  "extractEntitiesFromResult rt result =
     (case extractEntities_try rt result of Inl e \<Rightarrow> [] | Inr es \<Rightarrow> es)"

section \<open>\<^verbatim>\<open>JSON.stringify\<close>\<close>

text \<open>
  A string is the list of its code units, of which the model has those below 256.
  \<^verbatim>\<open>QuoteJSONString\<close> escapes the quote, the backslash and the control characters.
\<close>

definition hex_char :: "nat \<Rightarrow> char" where
  "hex_char n = ''0123456789abcdef'' ! n"

definition quote_char :: "char \<Rightarrow> string" where
  "quote_char c =
     (if c = CHR 0x08 then [CHR 0x5C, CHR ''b'']
      else if c = CHR 0x09 then [CHR 0x5C, CHR ''t'']
      else if c = CHR 0x0A then [CHR 0x5C, CHR ''n'']
      else if c = CHR 0x0C then [CHR 0x5C, CHR ''f'']
      else if c = CHR 0x0D then [CHR 0x5C, CHR ''r'']
      else if c = CHR 0x22 then [CHR 0x5C, CHR 0x22]
      else if c = CHR 0x5C then [CHR 0x5C, CHR 0x5C]
      else if (of_char c :: nat) < 32
        then [CHR 0x5C, CHR ''u'', CHR ''0'', CHR ''0'',
              hex_char ((of_char c :: nat) div 16), hex_char ((of_char c :: nat) mod 16)]
      else [c])"

definition QuoteJSONString :: "string \<Rightarrow> string" where
  "QuoteJSONString s = [CHR 0x22] @ concat (map quote_char s) @ [CHR 0x22]"

text \<open>
  \<open>wrap_items\<close> lays out the members of an array or object between its brackets:
  on one line when \<open>gap\<close> is empty, else one member per line, indented.
\<close>

definition wrap_items :: "string \<Rightarrow> string \<Rightarrow> string \<Rightarrow> string \<Rightarrow> string list \<Rightarrow> string" where
  "wrap_items gap indent opening closing items =
     (if items = [] then opening @ closing
      else if gap = [] then opening @ join_strings '','' items @ closing
      else opening @ [CHR 0x0A] @ (indent @ gap)
           @ join_strings ('','' @ [CHR 0x0A] @ (indent @ gap)) items
           @ [CHR 0x0A] @ indent @ closing)"

text \<open>
  \<^verbatim>\<open>SerializeJSONProperty\<close>: \<open>None\<close> is the result \<^verbatim>\<open>undefined\<close>. An undefined array
  element prints as \<^verbatim>\<open>null\<close>; an undefined property is left out. No value of the
  model has a callable \<^verbatim>\<open>toJSON\<close>.
\<close>

fun serialize :: "runtime \<Rightarrow> string \<Rightarrow> string \<Rightarrow> jsval \<Rightarrow> string option"
  and serialize_elements :: "runtime \<Rightarrow> string \<Rightarrow> string \<Rightarrow> jsval list \<Rightarrow> string list"
  and serialize_properties :: "runtime \<Rightarrow> string \<Rightarrow> string \<Rightarrow> (string \<times> jsval) list \<Rightarrow> string list" where
  "serialize rt gap indent JUndefined = None"
| "serialize rt gap indent JNull = Some ''null''"
| "serialize rt gap indent (JBool b) = Some (if b then ''true'' else ''false'')"
| "serialize rt gap indent (JNum q) = Some (NumberToString rt q)"
| "serialize rt gap indent (JStr s) = Some (QuoteJSONString s)"
| "serialize rt gap indent (JArr xs) =
     Some (wrap_items gap indent ''['' '']'' (serialize_elements rt gap (indent @ gap) xs))"
| "serialize rt gap indent (JObj kvs) =
     Some (wrap_items gap indent ''{'' ''}'' (serialize_properties rt gap (indent @ gap) kvs))"
| "serialize_elements rt gap indent [] = []"
| "serialize_elements rt gap indent (x # xs) =
     (case serialize rt gap indent x of None \<Rightarrow> ''null'' | Some s \<Rightarrow> s)
       # serialize_elements rt gap indent xs"
| "serialize_properties rt gap indent [] = []"
| "serialize_properties rt gap indent ((k, v) # kvs) =
     (case serialize rt gap indent v of
        None \<Rightarrow> serialize_properties rt gap indent kvs
      | Some s \<Rightarrow> (QuoteJSONString k @ '':'' @ (if gap = [] then '''' else '' '') @ s)
                    # serialize_properties rt gap indent kvs)"

text \<open>\<^verbatim>\<open>JSON.stringify(v, null, n)\<close>: the gap is \<open>n\<close> spaces (at most ten).\<close>

definition JSON_stringify :: "runtime \<Rightarrow> jsval \<Rightarrow> nat \<Rightarrow> string option" where
  "JSON_stringify rt v n = serialize rt (replicate (min n 10) CHR '' '') '''' v"

section \<open>The Extraction Gateway: \<^verbatim>\<open>POST\<close>\<close>

text \<open>
  \<^verbatim>\<open>request.formData()\<close> either throws (the body is not a form; \<open>NotForm\<close> carries the
  message of the exception) or gives the entries of the form. \<^verbatim>\<open>formData.get(name)\<close>
  is the first entry of that name, a string or a file, or null.
\<close>

record upload =
  file_name :: string
  file_type :: string
  file_bytes :: string

datatype form_value = FString string | FFile upload

datatype request = NotForm string | Form "(string \<times> form_value) list"

text \<open>
  The credential as it is written into a header, a template literal or the URL: a
  file object prints as \<^verbatim>\<open>[object File]\<close>.
\<close>

fun key_string :: "form_value \<Rightarrow> string" where
  "key_string (FString s) = s"
| "key_string (FFile f) = ''[object File]''"

text \<open>An outbound \<^verbatim>\<open>fetch\<close>; the method is always POST.\<close>

record fetch_request =
  url :: string
  headers :: "(string \<times> string) list"
  body :: "string option"

record landing_response =
  http_status :: nat
  body_text :: string

datatype fetch_result = NetworkFailure | Response landing_response

text \<open>
  The upstream service answers the \<open>n\<close>-th call of an invocation (counted from 0)
  by a response or by a failure of the transport.
\<close>

type_synonym upstream = "nat \<Rightarrow> fetch_request \<Rightarrow> fetch_result"

datatype next_response = NextResponse_json jsval nat


fun response_status :: "next_response \<Rightarrow> nat" where
  "response_status (NextResponse_json b s) = s"

definition error_json :: "string \<Rightarrow> jsval" where
  "error_json msg = JObj [(''error'', JStr msg)]"

definition ok :: "landing_response \<Rightarrow> bool" where
  "ok r = (200 \<le> http_status r \<and> http_status r \<le> 299)"

subsection \<open>The five request formats\<close>

definition predict_url :: string where
  "predict_url = ''https://predict.app.landing.ai/inference/v1/predict''"

definition file_upload_body :: "runtime \<Rightarrow> string \<Rightarrow> string option" where
  "file_upload_body rt base64File =
     JSON_stringify rt
       (JObj [(''type'', JStr ''file_upload''),
              (''images'', JArr [JObj [(''type'', JStr ''base64''), (''value'', JStr base64File)]])])
       0"

definition format1 :: "runtime \<Rightarrow> upload \<Rightarrow> string \<Rightarrow> string \<Rightarrow> fetch_request" where
  "format1 rt f key base64File =
     \<lparr> url = predict_url,
       headers = [(''Content-Type'', ''application/json''), (''apikey'', key)],
       body = file_upload_body rt base64File \<rparr>"

definition format2 :: "runtime \<Rightarrow> upload \<Rightarrow> string \<Rightarrow> string \<Rightarrow> fetch_request" where
  "format2 rt f key base64File =
     \<lparr> url = predict_url,
       headers = [(''Content-Type'', ''application/json''), (''Authorization'', ''Bearer '' @ key)],
       body = file_upload_body rt base64File \<rparr>"

definition format3 :: "runtime \<Rightarrow> upload \<Rightarrow> string \<Rightarrow> string \<Rightarrow> fetch_request" where
  "format3 rt f key base64File =
     \<lparr> url = predict_url,
       headers = [(''Content-Type'', ''application/json''), (''API-Key'', key)],
       body = file_upload_body rt base64File \<rparr>"

definition format4 :: "runtime \<Rightarrow> upload \<Rightarrow> string \<Rightarrow> string \<Rightarrow> fetch_request" where
  "format4 rt f key base64File =
     \<lparr> url = predict_url,
       headers = [(''Content-Type'', ''application/json''), (''apikey'', key)],
       body = JSON_stringify rt
         (JObj [(''file'', JStr base64File), (''filename'', JStr (file_name f)),
                (''filetype'', JStr (file_type f))])
         0 \<rparr>"

definition format5 :: "runtime \<Rightarrow> upload \<Rightarrow> string \<Rightarrow> string \<Rightarrow> fetch_request" where
  "format5 rt f key base64File =
     \<lparr> url = predict_url @ ''?apikey='' @ key,
       headers = [(''Content-Type'', ''application/json'')],
       body = file_upload_body rt base64File \<rparr>"

definition formats :: "runtime \<Rightarrow> upload \<Rightarrow> string \<Rightarrow> string \<Rightarrow> fetch_request list" where
  "formats rt f key base64File =
     [format1 rt f key base64File, format2 rt f key base64File, format3 rt f key base64File,
      format4 rt f key base64File, format5 rt f key base64File]"

subsection \<open>Probing\<close>

text \<open>
  The state of the inner \<^verbatim>\<open>try\<close> is the list of calls made so far and the current
  value of \<^verbatim>\<open>landingAIResponse\<close>. \<open>Inl\<close> is a \<^verbatim>\<open>fetch\<close> that threw, with the calls made
  up to and including it.
\<close>

type_synonym probe_state = "fetch_request list \<times> landing_response"

definition fetch :: "upstream \<Rightarrow> fetch_request list \<Rightarrow> fetch_request \<Rightarrow> fetch_request list + probe_state" where
  "fetch up calls rq =
     (case up (length calls) rq of
        NetworkFailure \<Rightarrow> Inl (calls @ [rq])
      | Response r \<Rightarrow> Inr (calls @ [rq], r))"

text \<open>\<^verbatim>\<open>if (landingAIResponse.status === 401) { landingAIResponse = await fetch(...) }\<close>\<close>

definition retry_if_401 :: "upstream \<Rightarrow> fetch_request \<Rightarrow> probe_state \<Rightarrow> fetch_request list + probe_state" where
  "retry_if_401 up rq st =
     (case st of (calls, landingAIResponse) \<Rightarrow>
        if http_status landingAIResponse = 401 then fetch up calls rq
        else Inr (calls, landingAIResponse))"

definition probe :: "upstream \<Rightarrow> fetch_request \<Rightarrow> fetch_request \<Rightarrow> fetch_request \<Rightarrow> fetch_request \<Rightarrow> fetch_request \<Rightarrow> fetch_request list + probe_state" where
  "probe up r1 r2 r3 r4 r5 =
     (case fetch up [] r1 of Inl c \<Rightarrow> Inl c | Inr s1 \<Rightarrow>
     (case retry_if_401 up r2 s1 of Inl c \<Rightarrow> Inl c | Inr s2 \<Rightarrow>
     (case retry_if_401 up r3 s2 of Inl c \<Rightarrow> Inl c | Inr s3 \<Rightarrow>
     (case retry_if_401 up r4 s3 of Inl c \<Rightarrow> Inl c | Inr s4 \<Rightarrow>
      retry_if_401 up r5 s4))))"

subsection \<open>Mapping the final response\<close>

definition entity_json :: "entity \<Rightarrow> jsval" where
  "entity_json e = JObj [(''type'', etype e), (''value'', evalue e), (''confidence'', confidence e)]"

definition processedResult :: "runtime \<Rightarrow> upload \<Rightarrow> jsval \<Rightarrow> jsval" where
  "processedResult rt f result =
     JObj [(''data'', result),
           (''extractedText'', extractTextFromResult rt result),
           (''entities'', JArr (map entity_json (extractEntitiesFromResult rt result))),
           (''fileName'', JStr (file_name f)),
           (''fileSize'', JNum (of_nat (length (file_bytes f)))),
           (''processedAt'', JStr (now_iso rt))]"

text \<open>
  Everything after the inner \<^verbatim>\<open>try\<close>. \<^verbatim>\<open>landingAIResponse.json()\<close> throws on a body
  that is not JSON; the outer \<^verbatim>\<open>catch\<close> turns that into a 500.
\<close>

definition respond :: "runtime \<Rightarrow> upload \<Rightarrow> landing_response \<Rightarrow> next_response" where
  "respond rt f landingAIResponse =
     (if \<not> ok landingAIResponse then
        (if http_status landingAIResponse = 401 then
           NextResponse_json
             (error_json ''Invalid API key or authentication failed. Please check your LandingAI API key.'')
             401
         else if http_status landingAIResponse = 403 then
           NextResponse_json
             (error_json ''Access forbidden. Please check your API key permissions.'') 403
         else
           NextResponse_json
             (error_json (''LandingAI API error ('' @ show_nat (http_status landingAIResponse)
                            @ ''): '' @ body_text landingAIResponse))
             500)
      else (case JSON_parse rt (body_text landingAIResponse) of
          Inl message \<Rightarrow>
            NextResponse_json (error_json (''Failed to process document: '' @ message)) 500
        | Inr result \<Rightarrow> NextResponse_json (processedResult rt f result) 200))"

text \<open>
  \<open>POST\<close> returns the upstream calls it made, in order, and its response. The
  outer \<^verbatim>\<open>catch\<close> answers every exception with status 500: that of
  \<^verbatim>\<open>request.formData()\<close>, and that of \<^verbatim>\<open>file.arrayBuffer()\<close> when the field \<^verbatim>\<open>file\<close> holds
  a string (the message is that of V8). \<^verbatim>\<open>!file\<close> and \<^verbatim>\<open>!apiKey\<close> hold for null and for
  the empty string.
\<close>

definition POST :: "runtime \<Rightarrow> upstream \<Rightarrow> request \<Rightarrow> fetch_request list \<times> next_response" where
  "POST rt up req =
     (case req of
        NotForm message \<Rightarrow>
          ([], NextResponse_json (error_json (''Failed to process document: '' @ message)) 500)
      | Form entries \<Rightarrow>
     (case map_of entries ''file'' of
        None \<Rightarrow> ([], NextResponse_json (error_json ''No file provided'') 400)
      | Some file_field \<Rightarrow>
          if file_field = FString [] then
            ([], NextResponse_json (error_json ''No file provided'') 400)
          else
     (case map_of entries ''apiKey'' of
        None \<Rightarrow> ([], NextResponse_json (error_json ''No API key provided'') 400)
      | Some apiKey \<Rightarrow>
          if apiKey = FString [] then
            ([], NextResponse_json (error_json ''No API key provided'') 400)
          else
     (case file_field of
        FString s \<Rightarrow>
          ([], NextResponse_json
                 (error_json ''Failed to process document: file.arrayBuffer is not a function'') 500)
      | FFile f \<Rightarrow>
          (let base64File = base64 rt (file_bytes f); key = key_string apiKey in
           case probe up (format1 rt f key base64File) (format2 rt f key base64File)
                  (format3 rt f key base64File) (format4 rt f key base64File)
                  (format5 rt f key base64File) of
             Inl calls \<Rightarrow>
               (calls, NextResponse_json (error_json ''Network error occurred'') 500)
           | Inr (calls, landingAIResponse) \<Rightarrow>
               (calls, respond rt f landingAIResponse))))))"

section \<open>The Submission Orchestrator\<close>

text \<open>
  An \<^verbatim>\<open>ExtractionResult\<close>; an optional field that is absent holds \<open>JUndefined\<close>.
\<close>

datatype status = processing | completed | error

record ExtractionResult =
  fileName :: string
  status :: status
  data :: jsval
  error_message :: jsval
  extractedText :: jsval
  entities :: jsval

definition initialResults :: "upload list \<Rightarrow> ExtractionResult list" where
  "initialResults files =
     map (\<lambda>f. \<lparr> fileName = file_name f, status = processing, data = JUndefined,
                 error_message = JUndefined, extractedText = JUndefined, entities = JUndefined \<rparr>)
       files"

subsection \<open>The update made when a file's call settles\<close>

text \<open>
  How the call for one file ends: the Gateway answered (\<^verbatim>\<open>response.ok\<close> and the decoded
  body), or \<^verbatim>\<open>fetch\<close> or \<^verbatim>\<open>response.json()\<close> threw.
\<close>

datatype call_outcome = Answered bool jsval | Threw

text \<open>
  The replacement entry built for index \<open>index\<close>, one per branch of the source. Reading
  a property of a null or undefined body throws.
\<close>

definition replacement :: "call_outcome \<Rightarrow> ExtractionResult \<Rightarrow> js_error + ExtractionResult" where
  "replacement outcome r =
     (case outcome of
        Answered True result \<Rightarrow>
          if nullish result then Inl TypeError
          else Inr (r\<lparr> status := completed, data := read_prop result ''data'',
                      extractedText := read_prop result ''extractedText'',
                      entities := read_prop result ''entities'' \<rparr>)
      | Answered False result \<Rightarrow>
          if nullish result then Inl TypeError
          else Inr (r\<lparr> status := error,
                      error_message := or_else (read_prop result ''error'') (JStr ''Processing failed'') \<rparr>)
      | Threw \<Rightarrow> Inr (r\<lparr> status := error, error_message := JStr ''Network error occurred'' \<rparr>))"

text \<open>\<^verbatim>\<open>prev.map((r, i) => i === index ? {...} : r)\<close>\<close>

definition settle :: "nat \<Rightarrow> call_outcome \<Rightarrow> ExtractionResult list \<Rightarrow> js_error + ExtractionResult list" where
  "settle index outcome prev =
     map_throwing (\<lambda>(i, r). if i = index then replacement outcome r else Inr r) (enumerate 0 prev)"

subsection \<open>The run of \<^verbatim>\<open>processFiles\<close>\<close>

text \<open>
  The state of one run: the results list and the indices whose call has not settled.
  Each call performs exactly one update, in whichever order the calls settle.
\<close>

record run_state =
  results :: "ExtractionResult list"
  in_flight :: "nat set"

definition start :: "upload list \<Rightarrow> run_state" where
  "start files = \<lparr> results = initialResults files, in_flight = {0..<length files} \<rparr>"

inductive step :: "run_state \<Rightarrow> run_state \<Rightarrow> bool" where
  settled: "index \<in> in_flight s \<Longrightarrow> settle index outcome (results s) = Inr rs' \<Longrightarrow>
     step s \<lparr> results = rs', in_flight = in_flight s - {index} \<rparr>"

code_pred step .

definition reachable :: "upload list \<Rightarrow> run_state \<Rightarrow> bool" where
  "reachable files s = step\<^sup>*\<^sup>* (start files) s"

subsection \<open>\<^verbatim>\<open>downloadResults\<close>\<close>

fun status_string :: "status \<Rightarrow> string" where
  "status_string processing = ''processing''"
| "status_string completed = ''completed''"
| "status_string error = ''error''"

definition result_json :: "ExtractionResult \<Rightarrow> jsval" where
  "result_json r =
     JObj [(''fileName'', JStr (fileName r)), (''status'', JStr (status_string (status r))),
           (''data'', data r), (''error'', error_message r),
           (''extractedText'', extractedText r), (''entities'', entities r)]"

definition completedResults :: "ExtractionResult list \<Rightarrow> ExtractionResult list" where
  "completedResults rs = filter (\<lambda>r. status r = completed) rs"

definition dataStr :: "runtime \<Rightarrow> ExtractionResult list \<Rightarrow> string option" where
  "dataStr rt rs = JSON_stringify rt (JArr (map result_json (completedResults rs))) 2"

record download_link =
  href :: string
  download :: string

definition downloadResults :: "runtime \<Rightarrow> ExtractionResult list \<Rightarrow> download_link" where
  "downloadResults rt rs =
     \<lparr> href = ''data:application/json;charset=utf-8,''
         @ encodeURIComponent rt (case dataStr rt rs of None \<Rightarrow> ''undefined'' | Some s \<Rightarrow> s),
       download = ''extraction-results-'' @ takeWhile (\<lambda>c. c \<noteq> CHR ''T'') (now_iso rt) @ ''.json'' \<rparr>"

section \<open>Notions used to state the properties\<close>

text \<open>
  \<open>answered_401 up rs k\<close>: the upstream service answers call \<open>k\<close>, carrying request
  \<open>k\<close> of \<open>rs\<close>, with status 401.
\<close>

definition answered_401 :: "upstream \<Rightarrow> fetch_request list \<Rightarrow> nat \<Rightarrow> bool" where
  "answered_401 up rs k =
     (case up k (rs ! k) of NetworkFailure \<Rightarrow> False | Response r \<Rightarrow> http_status r = 401)"

text \<open>
  The string a text segment contributes, for two shapes of segment: a segment that is a
  string contributes itself, a segment object whose \<^verbatim>\<open>text\<close> is a non-empty string
  contributes that text. Every other shape is outside this notion (\<open>None\<close>), among
  them an object whose \<^verbatim>\<open>text\<close> is the empty string.
\<close>

fun segment_string :: "jsval \<Rightarrow> string option" where
  "segment_string (JStr s) = Some s"
| "segment_string (JObj kvs) =
     (case map_of kvs ''text'' of Some (JStr t) \<Rightarrow> if t \<noteq> [] then Some t else None | _ \<Rightarrow> None)"
| "segment_string v = None"

definition string_or_absent :: "jsval \<Rightarrow> string option" where
  "string_or_absent v = (case v of JStr s \<Rightarrow> Some s | JUndefined \<Rightarrow> Some [] | _ \<Rightarrow> None)"

text \<open>
  The string a region object contributes: its \<^verbatim>\<open>text\<close>, or its \<^verbatim>\<open>value\<close>, or the empty
  string, where a field is a string or is absent.
\<close>

fun region_string :: "jsval \<Rightarrow> string option" where
  "region_string (JObj kvs) =
     (case string_or_absent (read_prop (JObj kvs) ''text'') of
        None \<Rightarrow> None
      | Some t \<Rightarrow> if t \<noteq> [] then Some t else string_or_absent (read_prop (JObj kvs) ''value''))"
| "region_string v = None"

text \<open>The first value that is present, and the first that is truthy, else a default.\<close>

fun first_present :: "jsval list \<Rightarrow> jsval \<Rightarrow> jsval" where
  "first_present [] d = d"
| "first_present (v # vs) d = (if v \<noteq> JUndefined then v else first_present vs d)"

fun first_truthy :: "jsval list \<Rightarrow> jsval \<Rightarrow> jsval" where
  "first_truthy [] d = d"
| "first_truthy (v # vs) d = (if truthy v then v else first_truthy vs d)"

text \<open>
  The entity mapping in the words of the specification: type from \<^verbatim>\<open>label\<close>, \<^verbatim>\<open>class\<close>;
  value from \<^verbatim>\<open>text\<close>, \<^verbatim>\<open>content\<close>; confidence from \<^verbatim>\<open>score\<close>, \<^verbatim>\<open>probability\<close>. It is
  compared with \<open>entity_of\<close>, which is the source's.
\<close>

definition specified_entity :: "jsval \<Rightarrow> entity" where
  "specified_entity e =
     \<lparr> etype = first_present [read_prop e ''label'', read_prop e ''class''] (JStr ''Unknown''),
       evalue = first_present [read_prop e ''text'', read_prop e ''content''] (JStr ''''),
       confidence = first_present [read_prop e ''score'', read_prop e ''probability''] (JNum 0) \<rparr>"

definition array_length :: "jsval \<Rightarrow> nat" where
  "array_length v = (case v of JArr xs \<Rightarrow> length xs | _ \<Rightarrow> 0)"

text \<open>
  The row count of a table that has exactly one of \<^verbatim>\<open>rows\<close> and \<^verbatim>\<open>data\<close>, as an array:
  the length of whichever is present.
\<close>

definition table_rows :: "jsval \<Rightarrow> nat option" where
  "table_rows t =
     (case read_prop t ''rows'' of
        JArr rs \<Rightarrow> if read_prop t ''data'' = JUndefined then Some (length rs) else None
      | JUndefined \<Rightarrow> (case read_prop t ''data'' of JArr ds \<Rightarrow> Some (length ds) | _ \<Rightarrow> None)
      | _ \<Rightarrow> None)"

text \<open>
  The invariant of a run: an entry is in \<open>processing\<close> exactly while its call is in
  flight.
\<close>

definition run_invariant :: "run_state \<Rightarrow> bool" where
  "run_invariant s =
     (\<forall>j<length (results s). status (results s ! j) = processing \<longleftrightarrow> j \<in> in_flight s)"

section \<open>Concrete inputs\<close>

text \<open>A runtime, an uploaded file and upstream services on which the model is evaluated.\<close>

definition example_runtime :: runtime where
  "example_runtime =
     \<lparr> number_to_string = (\<lambda>q. ''0.9''),
       string_gt_zero = (\<lambda>s. False),
       JSON_parse = (\<lambda>s. if s = ''{}'' then Inr (JObj []) else Inl ''Unexpected token''),
       base64 = (\<lambda>b. ''aGk=''),
       encodeURIComponent = (\<lambda>s. s),
       now_iso = ''2026-01-01T00:00:00.000Z'' \<rparr>"

definition example_upload :: upload where
  "example_upload = \<lparr> file_name = ''a.pdf'', file_type = ''application/pdf'', file_bytes = ''hi'' \<rparr>"

definition example_request :: request where
  "example_request = Form [(''file'', FFile example_upload), (''apiKey'', FString ''secret'')]"


definition always_answers :: "nat \<Rightarrow> string \<Rightarrow> upstream" where
  "always_answers code txt = (\<lambda>n rq. Response \<lparr> http_status = code, body_text = txt \<rparr>)"

text \<open>Payloads.\<close>

definition segments_payload :: jsval where
  "segments_payload =
     JObj [(''predictions'', JArr [JObj [(''text_segments'',
        JArr [JObj [(''text'', JStr ''a'')], JObj [(''text'', JStr ''b'')]])]])]"

definition unrecognized_payload :: jsval where
  "unrecognized_payload =
     JObj [(''predictions'', JArr [JObj [(''id'', JNum 7)]]), (''ocr_result'', JStr ''scanned'')]"

definition person_payload :: jsval where
  "person_payload =
     JObj [(''predictions'', JArr [JObj [(''entities'', JArr [
        JObj [(''type'', JStr ''PERSON''), (''label'', JStr ''NAME''), (''text'', JStr ''Jane''),
              (''score'', JNum (9 / 10))]])]])]"

definition name_payload :: jsval where
  "name_payload =
     JObj [(''predictions'', JArr [JObj [(''entities'', JArr [
        JObj [(''label'', JStr ''NAME''), (''text'', JStr ''Jane''), (''score'', JNum (9 / 10))]])]])]"

definition tables_payload :: jsval where
  "tables_payload =
     JObj [(''predictions'', JArr [JObj [(''tables'', JArr [
        JObj [(''rows'', JArr [JNum 1, JNum 2, JNum 3])]])]])]"

definition number_payload :: jsval where
  "number_payload = JObj [(''text'', JNum 5)]"

definition hello_payload :: jsval where
  "hello_payload = JObj [(''predictions'', JArr [JObj [(''extracted_text'', JStr ''hello'')]])]"

definition empty_payload :: jsval where
  "empty_payload = JObj []"

definition empty_text_segment_payload :: jsval where
  "empty_text_segment_payload =
     JObj [(''predictions'', JArr [JObj [(''text_segments'',
        JArr [JObj [(''text'', JStr '''')], JStr ''b''])]])]"

definition null_prediction_payload :: jsval where
  "null_prediction_payload = JObj [(''predictions'', JArr [JNull]), (''text'', JStr ''top'')]"

definition tables_null_box_payload :: jsval where
  "tables_null_box_payload =
     JObj [(''predictions'', JArr [JObj [
        (''tables'', JArr [JObj [(''rows'', JArr [JNum 1, JNum 2, JNum 3])]]),
        (''bounding_boxes'', JArr [JNull])]])]"

text \<open>Entries of a results list, and the state after the only call of a run has thrown.\<close>

definition pending_entry :: ExtractionResult where
  "pending_entry = \<lparr> fileName = ''a.pdf'', status = processing, data = JUndefined,
     error_message = JUndefined, extractedText = JUndefined, entities = JUndefined \<rparr>"

definition failed_entry :: ExtractionResult where
  "failed_entry = \<lparr> fileName = ''a.pdf'', status = error, data = JUndefined,
     error_message = JStr ''Network error occurred'', extractedText = JUndefined,
     entities = JUndefined \<rparr>"

definition done_entry :: ExtractionResult where
  "done_entry = \<lparr> fileName = ''b.pdf'', status = completed, data = JObj [],
     error_message = JUndefined, extractedText = JStr ''No text extracted'',
     entities = JArr [] \<rparr>"

definition failed_state :: run_state where
  "failed_state = \<lparr> results = [failed_entry], in_flight = {} \<rparr>"


section \<open>Verified properties\<close>

subsection \<open>Input validation\<close>




subsection \<open>Probing\<close>

lemma probe_calls:
  fixes up r1 r2 r3 r4 r5
  defines "rs \<equiv> [r1, r2, r3, r4, r5]"
  defines "calls \<equiv> (case probe up r1 r2 r3 r4 r5 of Inl c \<Rightarrow> c | Inr (c, r) \<Rightarrow> c)"
  shows "calls = take (length calls) rs \<and> 1 \<le> length calls \<and> length calls \<le> 5
     \<and> (Suc 0 < length calls \<longleftrightarrow> 0 < length calls \<and> answered_401 up rs 0)
     \<and> (Suc 1 < length calls \<longleftrightarrow> 1 < length calls \<and> answered_401 up rs 1)
     \<and> (Suc 2 < length calls \<longleftrightarrow> 2 < length calls \<and> answered_401 up rs 2)
     \<and> (Suc 3 < length calls \<longleftrightarrow> 3 < length calls \<and> answered_401 up rs 3)"
  unfolding calls_def rs_def probe_def retry_if_401_def fetch_def answered_401_def
  by (auto simp: eval_nat_numeral split: fetch_result.splits)

text \<open>With a file and a credential in the form, \<open>POST\<close> is the probing followed by \<open>respond\<close>.\<close>

lemma POST_present:
  assumes "req = Form entries" and "map_of entries ''file'' = Some (FFile f)"
    and "map_of entries ''apiKey'' = Some cred" and "cred \<noteq> FString []"
  shows "POST rt up req =
     (case probe up (format1 rt f (key_string cred) (base64 rt (file_bytes f)))
             (format2 rt f (key_string cred) (base64 rt (file_bytes f)))
             (format3 rt f (key_string cred) (base64 rt (file_bytes f)))
             (format4 rt f (key_string cred) (base64 rt (file_bytes f)))
             (format5 rt f (key_string cred) (base64 rt (file_bytes f))) of
        Inl calls \<Rightarrow> (calls, NextResponse_json (error_json ''Network error occurred'') 500)
      | Inr (calls, landingAIResponse) \<Rightarrow> (calls, respond rt f landingAIResponse))"
  using assms by (simp add: POST_def Let_def)

lemma POST_calls_probe:
  assumes "req = Form entries" and "map_of entries ''file'' = Some (FFile f)"
    and "map_of entries ''apiKey'' = Some cred" and "cred \<noteq> FString []"
  shows "fst (POST rt up req) =
     (case probe up (format1 rt f (key_string cred) (base64 rt (file_bytes f)))
             (format2 rt f (key_string cred) (base64 rt (file_bytes f)))
             (format3 rt f (key_string cred) (base64 rt (file_bytes f)))
             (format4 rt f (key_string cred) (base64 rt (file_bytes f)))
             (format5 rt f (key_string cred) (base64 rt (file_bytes f))) of
        Inl c \<Rightarrow> c | Inr (c, r) \<Rightarrow> c)"
  by (simp add: POST_present [OF assms] split: sum.splits prod.splits)

text \<open>
  C1. With a file and a credential in the form, the upstream calls of one invocation
  are an initial segment of the five formats in their fixed order, at least one and at
  most five. Step \<open>k + 1\<close> is issued if and only if step \<open>k\<close> was issued and answered
  with status exactly 401: any other status, and a transport failure, end the probing
  with no further call. When every step answers 401, exactly five calls are made.
\<close>

theorem POST_probing_sequence:
  fixes rt :: runtime and up :: upstream
  assumes "req = Form entries" and "map_of entries ''file'' = Some (FFile f)"
    and "map_of entries ''apiKey'' = Some cred" and "cred \<noteq> FString []"
  defines "rs \<equiv> formats rt f (key_string cred) (base64 rt (file_bytes f))"
  defines "calls \<equiv> fst (POST rt up req)"
  shows "calls = take (length calls) rs \<and> 1 \<le> length calls \<and> length calls \<le> 5 \<and>
     (\<forall>k. Suc k < 5 \<longrightarrow> (Suc k < length calls \<longleftrightarrow> k < length calls \<and> answered_401 up rs k)) \<and>
     ((\<forall>k<5. answered_401 up rs k) \<longrightarrow> length calls = 5)"
proof -
  have c: "calls =
     (case probe up (format1 rt f (key_string cred) (base64 rt (file_bytes f)))
             (format2 rt f (key_string cred) (base64 rt (file_bytes f)))
             (format3 rt f (key_string cred) (base64 rt (file_bytes f)))
             (format4 rt f (key_string cred) (base64 rt (file_bytes f)))
             (format5 rt f (key_string cred) (base64 rt (file_bytes f))) of
        Inl c \<Rightarrow> c | Inr (c, r) \<Rightarrow> c)"
    unfolding calls_def using assms(1-4) by (rule POST_calls_probe)
  note p = probe_calls [of up "format1 rt f (key_string cred) (base64 rt (file_bytes f))"
      "format2 rt f (key_string cred) (base64 rt (file_bytes f))"
      "format3 rt f (key_string cred) (base64 rt (file_bytes f))"
      "format4 rt f (key_string cred) (base64 rt (file_bytes f))"
      "format5 rt f (key_string cred) (base64 rt (file_bytes f))",
      folded c, folded formats_def, folded rs_def]
  have steps: "Suc j < length calls \<longleftrightarrow> j < length calls \<and> answered_401 up rs j"
    if "Suc j < 5" for j
  proof -
    from that have "j = 0 \<or> j = 1 \<or> j = 2 \<or> j = 3" by arith
    with p show ?thesis by auto
  qed
  have all: "length calls = 5" if a: "\<forall>j<5. answered_401 up rs j"
  proof -
    from a have "answered_401 up rs 0" "answered_401 up rs 1" "answered_401 up rs 2"
      "answered_401 up rs 3" by simp_all
    with p show ?thesis by auto
  qed
  from p steps all show ?thesis by blast
qed

lemma example_request_fields:
  "example_request = Form [(''file'', FFile example_upload), (''apiKey'', FString ''secret'')]"
  "map_of [(''file'', FFile example_upload), (''apiKey'', FString ''secret'')] ''file''
     = Some (FFile example_upload)"
  "map_of [(''file'', FFile example_upload), (''apiKey'', FString ''secret'')] ''apiKey''
     = Some (FString ''secret'')"
  "FString ''secret'' \<noteq> FString []"
  by (simp_all add: example_request_def)

theorem POST_probing_sequence_witness:
  "length (fst (POST example_runtime (always_answers 401 ''denied'') example_request)) = 5"
proof -
  have "\<forall>k<5. answered_401 (always_answers 401 ''denied'')
      (formats example_runtime example_upload (key_string (FString ''secret''))
         (base64 example_runtime (file_bytes example_upload))) k"
    by (simp add: answered_401_def always_answers_def)
  with POST_probing_sequence [OF example_request_fields, of example_runtime
      "always_answers 401 ''denied''"]
  show ?thesis by blast
qed

subsection \<open>Mapping the final upstream response\<close>

lemma probe_final:
  "probe up r1 r2 r3 r4 r5 = Inr (calls, r) \<Longrightarrow>
     calls \<noteq> [] \<and> up (length calls - 1) (last calls) = Response r"
  unfolding probe_def retry_if_401_def fetch_def
  by (auto simp: eval_nat_numeral split: fetch_result.splits if_splits)

lemma probe_failed:
  "probe up r1 r2 r3 r4 r5 = Inl calls \<Longrightarrow>
     calls \<noteq> [] \<and> up (length calls - 1) (last calls) = NetworkFailure"
  unfolding probe_def retry_if_401_def fetch_def
  by (auto simp: eval_nat_numeral split: fetch_result.splits if_splits)

text \<open>The response of \<open>POST\<close> is \<open>respond\<close> applied to the answer to its last call.\<close>

lemma POST_final:
  assumes "req = Form entries" and "map_of entries ''file'' = Some (FFile f)"
    and "map_of entries ''apiKey'' = Some cred" and "cred \<noteq> FString []"
    and "up (length (fst (POST rt up req)) - 1) (last (fst (POST rt up req))) = Response r"
  shows "snd (POST rt up req) = respond rt f r"
proof (cases "probe up (format1 rt f (key_string cred) (base64 rt (file_bytes f)))
             (format2 rt f (key_string cred) (base64 rt (file_bytes f)))
             (format3 rt f (key_string cred) (base64 rt (file_bytes f)))
             (format4 rt f (key_string cred) (base64 rt (file_bytes f)))
             (format5 rt f (key_string cred) (base64 rt (file_bytes f)))")
  case (Inl calls)
  with POST_present [OF assms(1-4), of rt up] have "fst (POST rt up req) = calls" by simp
  with probe_failed [OF Inl] assms(5) show ?thesis by simp
next
  case (Inr st)
  obtain calls r' where st: "st = (calls, r')" by (cases st)
  with Inr POST_present [OF assms(1-4), of rt up]
  have p: "POST rt up req = (calls, respond rt f r')" by simp
  with probe_final [OF Inr [unfolded st]] assms(5) show ?thesis by simp
qed

lemma example_single_call:
  "code \<noteq> 401 \<Longrightarrow>
     fst (POST example_runtime (always_answers code txt) example_request) =
       [format1 example_runtime example_upload ''secret'' ''aGk='']"
  by (simp add: POST_def probe_def fetch_def retry_if_401_def example_request_def
      always_answers_def example_runtime_def example_upload_def)

lemma example_last_answer:
  "code \<noteq> 401 \<Longrightarrow>
     always_answers code txt
       (length (fst (POST example_runtime (always_answers code txt) example_request)) - 1)
       (last (fst (POST example_runtime (always_answers code txt) example_request)))
     = Response \<lparr> http_status = code, body_text = txt \<rparr>"
  by (simp add: example_single_call always_answers_def)

text \<open>
  C2, as stated, fails on a 2xx response whose body is not JSON: the upstream service
  answers the first call with status 200 and the body \<^verbatim>\<open><html>\<close>, probing ends there,
  and the Gateway returns a status-500 error instead of a normalized result.
\<close>

theorem POST_2xx_not_json_counterexample:
  "always_answers 200 ''<html>'' 0 (format1 example_runtime example_upload ''secret'' ''aGk='')
     = Response \<lparr> http_status = 200, body_text = ''<html>'' \<rparr> \<and>
   ok \<lparr> http_status = 200, body_text = ''<html>'' \<rparr> \<and>
   POST example_runtime (always_answers 200 ''<html>'') example_request =
     ([format1 example_runtime example_upload ''secret'' ''aGk=''],
      NextResponse_json (error_json ''Failed to process document: Unexpected token'') 500)"
  by (simp add: POST_def probe_def fetch_def retry_if_401_def example_request_def
      always_answers_def respond_def ok_def example_runtime_def example_upload_def)

text \<open>
  C2, amended. Let \<open>r\<close> be the answer to the last upstream call of an invocation. A
  final 401 gives an error response with status 401 and the invalid-credential
  message; a final 403 gives status 403 and the permissions message; any other non-2xx
  gives a status-500 error whose message holds the upstream status code and the
  upstream body text; a 2xx whose body parses as JSON gives the normalized result with
  status 200; a 2xx whose body does not parse gives a status-500 error.
\<close>

theorem POST_response_mapping:
  fixes rt :: runtime and up :: upstream
  assumes "req = Form entries" and "map_of entries ''file'' = Some (FFile f)"
    and "map_of entries ''apiKey'' = Some cred" and "cred \<noteq> FString []"
    and "up (length (fst (POST rt up req)) - 1) (last (fst (POST rt up req))) = Response r"
  shows "(http_status r = 401 \<longrightarrow> snd (POST rt up req) =
            NextResponse_json (error_json
              ''Invalid API key or authentication failed. Please check your LandingAI API key.'') 401) \<and>
         (http_status r = 403 \<longrightarrow> snd (POST rt up req) =
            NextResponse_json (error_json
              ''Access forbidden. Please check your API key permissions.'') 403) \<and>
         (\<not> ok r \<and> http_status r \<noteq> 401 \<and> http_status r \<noteq> 403 \<longrightarrow> snd (POST rt up req) =
            NextResponse_json (error_json (''LandingAI API error ('' @ show_nat (http_status r)
              @ ''): '' @ body_text r)) 500) \<and>
         (\<forall>payload. ok r \<and> JSON_parse rt (body_text r) = Inr payload \<longrightarrow> snd (POST rt up req) =
            NextResponse_json (JObj
              [(''data'', payload),
               (''extractedText'', extractTextFromResult rt payload),
               (''entities'', JArr (map entity_json (extractEntitiesFromResult rt payload))),
               (''fileName'', JStr (file_name f)),
               (''fileSize'', JNum (of_nat (length (file_bytes f)))),
               (''processedAt'', JStr (now_iso rt))]) 200) \<and>
         (\<forall>message. ok r \<and> JSON_parse rt (body_text r) = Inl message \<longrightarrow> snd (POST rt up req) =
            NextResponse_json (error_json (''Failed to process document: '' @ message)) 500)"
proof -
  have "snd (POST rt up req) = respond rt f r"
    using assms by (rule POST_final)
  then show ?thesis
    by (simp add: respond_def ok_def processedResult_def)
qed

theorem POST_response_mapping_witness:
  "snd (POST example_runtime (always_answers 403 ''no'') example_request) =
     NextResponse_json (error_json ''Access forbidden. Please check your API key permissions.'') 403 \<and>
   snd (POST example_runtime (always_answers 500 ''boom'') example_request) =
     NextResponse_json (error_json ''LandingAI API error (500): boom'') 500 \<and>
   response_status (snd (POST example_runtime (always_answers 200 ''{}'') example_request)) = 200"
proof -
  have l403: "always_answers 403 ''no''
      (length (fst (POST example_runtime (always_answers 403 ''no'') example_request)) - 1)
      (last (fst (POST example_runtime (always_answers 403 ''no'') example_request)))
      = Response \<lparr> http_status = 403, body_text = ''no'' \<rparr>"
    by (rule example_last_answer) simp
  have l500: "always_answers 500 ''boom''
      (length (fst (POST example_runtime (always_answers 500 ''boom'') example_request)) - 1)
      (last (fst (POST example_runtime (always_answers 500 ''boom'') example_request)))
      = Response \<lparr> http_status = 500, body_text = ''boom'' \<rparr>"
    by (rule example_last_answer) simp
  have l200: "always_answers 200 ''{}''
      (length (fst (POST example_runtime (always_answers 200 ''{}'') example_request)) - 1)
      (last (fst (POST example_runtime (always_answers 200 ''{}'') example_request)))
      = Response \<lparr> http_status = 200, body_text = ''{}'' \<rparr>"
    by (rule example_last_answer) simp
  have parse: "JSON_parse example_runtime ''{}'' = Inr (JObj [])"
    by (simp add: example_runtime_def)
  have digits: "show_nat 500 = ''500''"
    by (simp add: show_nat.simps digit_char_def)
  from POST_response_mapping [of example_request _ example_upload "FString ''secret''"
      "always_answers 403 ''no''" example_runtime "\<lparr> http_status = 403, body_text = ''no'' \<rparr>",
      OF example_request_fields l403]
  have a: "snd (POST example_runtime (always_answers 403 ''no'') example_request) =
     NextResponse_json (error_json ''Access forbidden. Please check your API key permissions.'') 403"
    by simp
  from POST_response_mapping [of example_request _ example_upload "FString ''secret''"
      "always_answers 500 ''boom''" example_runtime "\<lparr> http_status = 500, body_text = ''boom'' \<rparr>",
      OF example_request_fields l500]
  have b: "snd (POST example_runtime (always_answers 500 ''boom'') example_request) =
     NextResponse_json (error_json ''LandingAI API error (500): boom'') 500"
    by (simp add: ok_def digits)
  from POST_response_mapping [of example_request _ example_upload "FString ''secret''"
      "always_answers 200 ''{}''" example_runtime "\<lparr> http_status = 200, body_text = ''{}'' \<rparr>",
      OF example_request_fields l200]
  have c: "response_status (snd (POST example_runtime (always_answers 200 ''{}'') example_request)) = 200"
    by (simp add: ok_def parse)
  from a b c show ?thesis by simp
qed

subsection \<open>Text extraction\<close>

lemma has_predictions_nonempty:
  "read_prop result ''predictions'' = JArr (p # ps) \<Longrightarrow> has_predictions rt result = Inr True"
  by (cases result) (auto simp: has_predictions_def get_def)

lemma has_predictions_none:
  "\<not> nullish result \<Longrightarrow> \<not> truthy (read_prop result ''predictions'') \<or> read_prop result ''predictions'' = JArr []
     \<Longrightarrow> has_predictions rt result = Inr False"
  by (auto simp: has_predictions_def get_def)

lemma join_elements_strings: "join_elements rt (map JStr strs) = Inr strs"
  by (induction strs) auto

lemma segments_plain:
  "those (map segment_string segs) = Some strs \<Longrightarrow> map_throwing segment_text segs = Inr (map JStr strs)"
proof (induction segs arbitrary: strs)
  case Nil
  then show ?case by simp
next
  case (Cons seg segs)
  then obtain s rest where s: "segment_string seg = Some s" and r: "those (map segment_string segs) = Some rest"
    and strs: "strs = s # rest"
    by (auto split: option.splits)
  from s have "segment_text seg = Inr (JStr s)"
    by (cases seg) (auto simp: segment_text_def or_else_def split: option.splits jsval.splits if_splits)
  with Cons.IH [OF r] strs show ?case by simp
qed

lemma regions_plain:
  "those (map region_string regs) = Some strs \<Longrightarrow> map_throwing region_text regs = Inr (map JStr strs)"
proof (induction regs arbitrary: strs)
  case Nil
  then show ?case by simp
next
  case (Cons reg regs)
  then obtain s rest where s: "region_string reg = Some s" and r: "those (map region_string regs) = Some rest"
    and strs: "strs = s # rest"
    by (auto split: option.splits)
  from s have "region_text reg = Inr (JStr s)"
    by (cases reg) (auto simp: region_text_def or_else_def string_or_absent_def split: option.splits jsval.splits if_splits)
  with Cons.IH [OF r] strs show ?case by simp
qed

lemma map_join_strings:
  "map_throwing f xs = Inr (map JStr strs) \<Longrightarrow> map_join rt f xs = Inr (JStr (join_strings '' '' strs))"
  by (simp add: map_join_def join_def join_elements_strings)


lemma text_in_prediction:
  assumes "read_prop result ''predictions'' = JArr (p # ps)"
    and "text_of_prediction rt p = Inr (Some v)"
  shows "extractTextFromResult rt result = v"
  using assms
  by (simp add: extractTextFromResult_def extractText_try_def has_predictions_nonempty)

lemma text_after_prediction:
  assumes "read_prop result ''predictions'' = JArr (p # ps)"
    and "text_of_prediction rt p = Inr None"
  shows "extractTextFromResult rt result = text_of_top_level result"
  using assms
  by (simp add: extractTextFromResult_def extractText_try_def has_predictions_nonempty)

lemma text_without_predictions:
  assumes "\<not> nullish result"
    and "\<not> truthy (read_prop result ''predictions'') \<or> read_prop result ''predictions'' = JArr []"
  shows "extractTextFromResult rt result = text_of_top_level result"
  using assms
  by (simp add: extractTextFromResult_def extractText_try_def has_predictions_none)

lemma prediction_extracted_text:
  assumes "\<not> nullish p" "truthy (read_prop p ''extracted_text'')"
  shows "text_of_prediction rt p = Inr (Some (read_prop p ''extracted_text''))"
  using assms by (simp add: text_of_prediction_def)

lemma prediction_ocr_text:
  assumes "\<not> nullish p" "\<not> truthy (read_prop p ''extracted_text'')"
    "truthy (read_prop p ''ocr_text'')"
  shows "text_of_prediction rt p = Inr (Some (read_prop p ''ocr_text''))"
  using assms by (simp add: text_of_prediction_def)

lemma prediction_text:
  assumes "\<not> nullish p" "\<not> truthy (read_prop p ''extracted_text'')"
    "\<not> truthy (read_prop p ''ocr_text'')" "truthy (read_prop p ''text'')"
  shows "text_of_prediction rt p = Inr (Some (read_prop p ''text''))"
  using assms by (simp add: text_of_prediction_def)

lemma prediction_segments:
  assumes "\<not> nullish p" "\<not> truthy (read_prop p ''extracted_text'')"
    "\<not> truthy (read_prop p ''ocr_text'')" "\<not> truthy (read_prop p ''text'')"
    "read_prop p ''text_segments'' = JArr segs" "those (map segment_string segs) = Some strs"
  shows "text_of_prediction rt p = Inr (Some (JStr (join_strings '' '' strs)))"
  using assms by (simp add: text_of_prediction_def map_join_strings [OF segments_plain])

lemma prediction_regions:
  assumes "\<not> nullish p" "\<not> truthy (read_prop p ''extracted_text'')"
    "\<not> truthy (read_prop p ''ocr_text'')" "\<not> truthy (read_prop p ''text'')"
    "\<not> is_array (read_prop p ''text_segments'')"
    "read_prop p ''regions'' = JArr regs" "those (map region_string regs) = Some strs"
  shows "text_of_prediction rt p = Inr (Some (JStr (join_strings '' '' strs)))"
  using assms
  by (cases "read_prop p ''text_segments''")
     (simp_all add: text_of_prediction_def map_join_strings [OF regions_plain])

lemma prediction_nothing:
  assumes "\<not> nullish p" "\<not> truthy (read_prop p ''extracted_text'')"
    "\<not> truthy (read_prop p ''ocr_text'')" "\<not> truthy (read_prop p ''text'')"
    "\<not> is_array (read_prop p ''text_segments'')" "\<not> is_array (read_prop p ''regions'')"
  shows "text_of_prediction rt p = Inr None"
  using assms
  by (cases "read_prop p ''text_segments''"; cases "read_prop p ''regions''")
     (simp_all add: text_of_prediction_def)

lemma truthy_prop_not_nullish: "truthy (read_prop p k) \<Longrightarrow> \<not> nullish p"
  by (cases p) auto

lemma array_prop_not_nullish: "read_prop p k = JArr xs \<Longrightarrow> \<not> nullish p"
  by (cases p) auto

lemma text_of_null_prediction:
  assumes "read_prop result ''predictions'' = JArr (p # ps)" and "nullish p"
  shows "extractTextFromResult rt result = JStr ''Error extracting text''"
  using assms
  by (simp add: extractTextFromResult_def extractText_try_def has_predictions_nonempty
      text_of_prediction_def)

lemma text_of_null_payload:
  "nullish result \<Longrightarrow> extractTextFromResult rt result = JStr ''Error extracting text''"
  by (simp add: extractTextFromResult_def extractText_try_def has_predictions_def get_def)

text \<open>
  An object segment whose \<^verbatim>\<open>text\<close> is the empty string does not contribute that text:
  \<^verbatim>\<open>segment.text || segment\<close> gives the object, which prints as \<^verbatim>\<open>[object Object]\<close>.
\<close>

lemma empty_text_segment_prints_object:
  "extractTextFromResult example_runtime empty_text_segment_payload = JStr ''[object Object] b''"
  by (simp add: extractTextFromResult_def extractText_try_def has_predictions_def get_def
      empty_text_segment_payload_def text_of_prediction_def map_join_def join_def
      segment_text_def or_else_def)

text \<open>
  C3, as stated, fails on the payload \<^verbatim>\<open>null\<close>: it has no predictions, no top-level
  \<^verbatim>\<open>text\<close> and no \<^verbatim>\<open>ocr_result\<close>, yet the text is not \<^verbatim>\<open>No text extracted\<close>: reading
  \<^verbatim>\<open>result.predictions\<close> throws and the \<^verbatim>\<open>catch\<close> returns \<^verbatim>\<open>Error extracting text\<close>.
\<close>

theorem extractText_null_payload_counterexample:
  "read_prop JNull ''predictions'' = JUndefined \<and>
   read_prop JNull ''text'' = JUndefined \<and>
   read_prop JNull ''ocr_result'' = JUndefined \<and>
   extractTextFromResult example_runtime JNull = JStr ''Error extracting text''"
  by (simp add: extractTextFromResult_def extractText_try_def has_predictions_def get_def)

text \<open>
  C3, amended. When \<^verbatim>\<open>predictions\<close> is a non-empty array with element 0 \<open>p\<close>, the
  extracted text is the first truthy of \<^verbatim>\<open>p.extracted_text\<close>, \<^verbatim>\<open>p.ocr_text\<close>, \<^verbatim>\<open>p.text\<close>;
  failing those, the space-join of \<^verbatim>\<open>p.text_segments\<close>, each segment being a string,
  which contributes itself, or an object with a non-empty string \<^verbatim>\<open>text\<close>, which
  contributes that text; failing that, the space-join of \<^verbatim>\<open>p.regions\<close>, each region
  being an object that contributes its \<^verbatim>\<open>text\<close> or \<^verbatim>\<open>value\<close> (strings) or the empty
  string. When the payload is not null and has no predictions, the text is the
  top-level \<^verbatim>\<open>text\<close>, then the top-level \<^verbatim>\<open>ocr_result\<close>, else \<^verbatim>\<open>No text extracted\<close>.
  When the payload is null, the text is \<^verbatim>\<open>Error extracting text\<close>.
\<close>

theorem extractText_precedence:
  "(\<forall>p ps. read_prop result ''predictions'' = JArr (p # ps) \<longrightarrow>
      (truthy (read_prop p ''extracted_text'') \<longrightarrow>
         extractTextFromResult rt result = read_prop p ''extracted_text'') \<and>
      (\<not> truthy (read_prop p ''extracted_text'') \<and> truthy (read_prop p ''ocr_text'') \<longrightarrow>
         extractTextFromResult rt result = read_prop p ''ocr_text'') \<and>
      (\<not> truthy (read_prop p ''extracted_text'') \<and> \<not> truthy (read_prop p ''ocr_text'') \<and>
       truthy (read_prop p ''text'') \<longrightarrow>
         extractTextFromResult rt result = read_prop p ''text'') \<and>
      (\<forall>segs strs.
         \<not> truthy (read_prop p ''extracted_text'') \<and> \<not> truthy (read_prop p ''ocr_text'') \<and>
         \<not> truthy (read_prop p ''text'') \<and> read_prop p ''text_segments'' = JArr segs \<and>
         those (map segment_string segs) = Some strs \<longrightarrow>
         extractTextFromResult rt result = JStr (join_strings '' '' strs)) \<and>
      (\<forall>regs strs.
         \<not> truthy (read_prop p ''extracted_text'') \<and> \<not> truthy (read_prop p ''ocr_text'') \<and>
         \<not> truthy (read_prop p ''text'') \<and> \<not> is_array (read_prop p ''text_segments'') \<and>
         read_prop p ''regions'' = JArr regs \<and> those (map region_string regs) = Some strs \<longrightarrow>
         extractTextFromResult rt result = JStr (join_strings '' '' strs))) \<and>
   (\<not> nullish result \<and>
      (\<not> truthy (read_prop result ''predictions'') \<or> read_prop result ''predictions'' = JArr []) \<longrightarrow>
      extractTextFromResult rt result =
        (if truthy (read_prop result ''text'') then read_prop result ''text''
         else if truthy (read_prop result ''ocr_result'') then read_prop result ''ocr_result''
         else JStr ''No text extracted'')) \<and>
   (nullish result \<longrightarrow> extractTextFromResult rt result = JStr ''Error extracting text'')"
proof -
  have a: "extractTextFromResult rt result = read_prop p ''extracted_text''"
    if "read_prop result ''predictions'' = JArr (p # ps)"
      "truthy (read_prop p ''extracted_text'')" for p ps
    using that(1) prediction_extracted_text [OF truthy_prop_not_nullish [OF that(2)] that(2)]
    by (rule text_in_prediction)
  have b: "extractTextFromResult rt result = read_prop p ''ocr_text''"
    if "read_prop result ''predictions'' = JArr (p # ps)"
      "\<not> truthy (read_prop p ''extracted_text'')" "truthy (read_prop p ''ocr_text'')" for p ps
    using that(1) prediction_ocr_text [OF truthy_prop_not_nullish [OF that(3)] that(2-3)]
    by (rule text_in_prediction)
  have c: "extractTextFromResult rt result = read_prop p ''text''"
    if "read_prop result ''predictions'' = JArr (p # ps)"
      "\<not> truthy (read_prop p ''extracted_text'')" "\<not> truthy (read_prop p ''ocr_text'')"
      "truthy (read_prop p ''text'')" for p ps
    using that(1) prediction_text [OF truthy_prop_not_nullish [OF that(4)] that(2-4)]
    by (rule text_in_prediction)
  have d: "extractTextFromResult rt result = JStr (join_strings '' '' strs)"
    if "read_prop result ''predictions'' = JArr (p # ps)"
      "\<not> truthy (read_prop p ''extracted_text'')" "\<not> truthy (read_prop p ''ocr_text'')"
      "\<not> truthy (read_prop p ''text'')" "read_prop p ''text_segments'' = JArr segs"
      "those (map segment_string segs) = Some strs" for p ps segs strs
    using that(1) prediction_segments [OF array_prop_not_nullish [OF that(5)] that(2-6)]
    by (rule text_in_prediction)
  have e: "extractTextFromResult rt result = JStr (join_strings '' '' strs)"
    if "read_prop result ''predictions'' = JArr (p # ps)"
      "\<not> truthy (read_prop p ''extracted_text'')" "\<not> truthy (read_prop p ''ocr_text'')"
      "\<not> truthy (read_prop p ''text'')" "\<not> is_array (read_prop p ''text_segments'')"
      "read_prop p ''regions'' = JArr regs"
      "those (map region_string regs) = Some strs" for p ps regs strs
    using that(1) prediction_regions [OF array_prop_not_nullish [OF that(6)] that(2-7)]
    by (rule text_in_prediction)
  have f: "extractTextFromResult rt result =
        (if truthy (read_prop result ''text'') then read_prop result ''text''
         else if truthy (read_prop result ''ocr_result'') then read_prop result ''ocr_result''
         else JStr ''No text extracted'')"
    if "\<not> nullish result"
      "\<not> truthy (read_prop result ''predictions'') \<or> read_prop result ''predictions'' = JArr []"
    using text_without_predictions [OF that] by (simp add: text_of_top_level_def)
  have g: "extractTextFromResult rt result = JStr ''Error extracting text''" if "nullish result"
    using that by (rule text_of_null_payload)
  from a b c d e f g show ?thesis by blast
qed

theorem extractText_precedence_witness:
  "extractTextFromResult example_runtime segments_payload = JStr ''a b'' \<and>
   extractTextFromResult example_runtime hello_payload = JStr ''hello'' \<and>
   extractTextFromResult example_runtime empty_payload = JStr ''No text extracted''"
proof -
  let ?segs = "[JObj [(''text'', JStr ''a'')], JObj [(''text'', JStr ''b'')]]"
  let ?p = "JObj [(''text_segments'', JArr ?segs)]"
  let ?q = "JObj [(''extracted_text'', JStr ''hello'')]"
  have h: "read_prop segments_payload ''predictions'' = JArr (?p # [])"
    by (simp add: segments_payload_def)
  have g: "\<not> truthy (read_prop ?p ''extracted_text'') \<and> \<not> truthy (read_prop ?p ''ocr_text'') \<and>
      \<not> truthy (read_prop ?p ''text'') \<and> read_prop ?p ''text_segments'' = JArr ?segs \<and>
      those (map segment_string ?segs) = Some [''a'', ''b'']"
    by simp
  from extractText_precedence [of segments_payload example_runtime] h g
  have "extractTextFromResult example_runtime segments_payload = JStr (join_strings '' '' [''a'', ''b''])"
    by blast
  then have a: "extractTextFromResult example_runtime segments_payload = JStr ''a b''" by simp
  have h': "read_prop hello_payload ''predictions'' = JArr (?q # [])"
    by (simp add: hello_payload_def)
  have g': "truthy (read_prop ?q ''extracted_text'')" by simp
  from extractText_precedence [of hello_payload example_runtime] h' g'
  have "extractTextFromResult example_runtime hello_payload = read_prop ?q ''extracted_text''"
    by blast
  then have b: "extractTextFromResult example_runtime hello_payload = JStr ''hello''" by simp
  have h'': "\<not> nullish empty_payload \<and>
      (\<not> truthy (read_prop empty_payload ''predictions'') \<or> read_prop empty_payload ''predictions'' = JArr [])"
    by (simp add: empty_payload_def)
  have top: "\<not> truthy (read_prop empty_payload ''text'')" "\<not> truthy (read_prop empty_payload ''ocr_result'')"
    by (simp_all add: empty_payload_def)
  from extractText_precedence [of empty_payload example_runtime] h''
  have "extractTextFromResult example_runtime empty_payload =
        (if truthy (read_prop empty_payload ''text'') then read_prop empty_payload ''text''
         else if truthy (read_prop empty_payload ''ocr_result'') then read_prop empty_payload ''ocr_result''
         else JStr ''No text extracted'')"
    by blast
  with top have c: "extractTextFromResult example_runtime empty_payload = JStr ''No text extracted''"
    by simp
  from a b c show ?thesis by simp
qed

text \<open>
  C10, as stated, fails when element 0 of \<^verbatim>\<open>predictions\<close> is \<^verbatim>\<open>null\<close>: it has none of the
  recognized text fields, yet for \<^verbatim>\<open>{"predictions":[null],"text":"top"}\<close> the text is not
  the top-level \<^verbatim>\<open>text\<close>: reading \<^verbatim>\<open>prediction.extracted_text\<close> throws and the \<^verbatim>\<open>catch\<close>
  returns \<^verbatim>\<open>Error extracting text\<close>.
\<close>

theorem extractText_null_prediction_counterexample:
  "read_prop null_prediction_payload ''predictions'' = JArr [JNull] \<and>
   read_prop null_prediction_payload ''text'' = JStr ''top'' \<and>
   extractTextFromResult example_runtime null_prediction_payload = JStr ''Error extracting text''"
  by (simp add: extractTextFromResult_def extractText_try_def has_predictions_def get_def
      null_prediction_payload_def text_of_prediction_def)

text \<open>
  C10, amended. When \<^verbatim>\<open>predictions\<close> is a non-empty array and its element 0 is not null
  but has none of the recognized text fields (no truthy \<^verbatim>\<open>extracted_text\<close>, \<^verbatim>\<open>ocr_text\<close>
  or \<^verbatim>\<open>text\<close>, no array \<^verbatim>\<open>text_segments\<close> or \<^verbatim>\<open>regions\<close>), text extraction still falls back
  to the top-level \<^verbatim>\<open>text\<close>, then the top-level \<^verbatim>\<open>ocr_result\<close>, before
  \<^verbatim>\<open>No text extracted\<close>. When element 0 is null, the text is \<^verbatim>\<open>Error extracting text\<close>
  and the top-level fields are not consulted.
\<close>

theorem extractText_top_level_after_prediction:
  assumes "read_prop result ''predictions'' = JArr (p # ps)"
  shows "(\<not> nullish p \<and>
      \<not> truthy (read_prop p ''extracted_text'') \<and> \<not> truthy (read_prop p ''ocr_text'') \<and>
      \<not> truthy (read_prop p ''text'') \<and>
      \<not> is_array (read_prop p ''text_segments'') \<and> \<not> is_array (read_prop p ''regions'') \<longrightarrow>
      extractTextFromResult rt result =
        (if truthy (read_prop result ''text'') then read_prop result ''text''
         else if truthy (read_prop result ''ocr_result'') then read_prop result ''ocr_result''
         else JStr ''No text extracted'')) \<and>
     (nullish p \<longrightarrow> extractTextFromResult rt result = JStr ''Error extracting text'')"
proof (intro conjI impI)
  assume h: "\<not> nullish p \<and>
      \<not> truthy (read_prop p ''extracted_text'') \<and> \<not> truthy (read_prop p ''ocr_text'') \<and>
      \<not> truthy (read_prop p ''text'') \<and>
      \<not> is_array (read_prop p ''text_segments'') \<and> \<not> is_array (read_prop p ''regions'')"
  then have "text_of_prediction rt p = Inr None"
    by (intro prediction_nothing) simp_all
  from text_after_prediction [OF assms this]
  show "extractTextFromResult rt result =
        (if truthy (read_prop result ''text'') then read_prop result ''text''
         else if truthy (read_prop result ''ocr_result'') then read_prop result ''ocr_result''
         else JStr ''No text extracted'')"
    by (simp add: text_of_top_level_def)
next
  assume "nullish p"
  with assms show "extractTextFromResult rt result = JStr ''Error extracting text''"
    by (rule text_of_null_prediction)
qed

theorem extractText_top_level_after_prediction_witness:
  "extractTextFromResult example_runtime unrecognized_payload = JStr ''scanned'' \<and>
   extractTextFromResult example_runtime null_prediction_payload = JStr ''Error extracting text''"
proof -
  let ?p = "JObj [(''id'', JNum 7)]"
  have h1: "read_prop unrecognized_payload ''predictions'' = JArr (?p # [])"
    by (simp add: unrecognized_payload_def)
  have top: "read_prop unrecognized_payload ''text'' = JUndefined"
    "read_prop unrecognized_payload ''ocr_result'' = JStr ''scanned''"
    by (simp_all add: unrecognized_payload_def)
  have h2: "\<not> nullish ?p \<and>
      \<not> truthy (read_prop ?p ''extracted_text'') \<and> \<not> truthy (read_prop ?p ''ocr_text'') \<and>
      \<not> truthy (read_prop ?p ''text'') \<and>
      \<not> is_array (read_prop ?p ''text_segments'') \<and> \<not> is_array (read_prop ?p ''regions'')"
    by simp
  from extractText_top_level_after_prediction [OF h1, of example_runtime] h2
  have "extractTextFromResult example_runtime unrecognized_payload =
        (if truthy (read_prop unrecognized_payload ''text'') then read_prop unrecognized_payload ''text''
         else if truthy (read_prop unrecognized_payload ''ocr_result'')
           then read_prop unrecognized_payload ''ocr_result''
         else JStr ''No text extracted'')"
    by blast
  then have a: "extractTextFromResult example_runtime unrecognized_payload = JStr ''scanned''"
    by (simp add: top)
  have h3: "read_prop null_prediction_payload ''predictions'' = JArr (JNull # [])"
    by (simp add: null_prediction_payload_def)
  from extractText_top_level_after_prediction [OF h3, of example_runtime]
  have b: "extractTextFromResult example_runtime null_prediction_payload = JStr ''Error extracting text''"
    by simp
  from a b show ?thesis by simp
qed

subsection \<open>Entity extraction\<close>

lemma each_indexed_Inr:
  "each_indexed f i xs = Inr ys \<Longrightarrow>
     length ys = length xs \<and> (\<forall>j<length xs. f (i + j) (xs ! j) = Inr (ys ! j))"
proof (induction xs arbitrary: i ys)
  case Nil
  then show ?case by simp
next
  case (Cons x xs)
  from Cons.prems obtain y rest where y: "f i x = Inr y"
    and rest: "each_indexed f (Suc i) xs = Inr rest" and ys: "ys = y # rest"
    by (auto split: sum.splits)
  from Cons.IH [OF rest] have len: "length rest = length xs"
    and el: "\<And>j. j < length xs \<Longrightarrow> f (Suc i + j) (xs ! j) = Inr (rest ! j)" by auto
  show ?case
  proof (intro conjI allI impI)
    show "length ys = length (x # xs)" using len ys by simp
  next
    fix j assume "j < length (x # xs)"
    then show "f (i + j) ((x # xs) ! j) = Inr (ys ! j)"
      using y el ys by (cases j) auto
  qed
qed

lemma section_of_length:
  "section_of p k f = Inr ys \<Longrightarrow> length ys = array_length (read_prop p k)"
  by (cases "read_prop p k") (auto simp: section_of_def array_length_def dest: each_indexed_Inr)

lemma section_of_elements:
  "section_of p k f = Inr ys \<Longrightarrow> read_prop p k = JArr xs \<Longrightarrow> j < length xs \<Longrightarrow>
     f j (xs ! j) = Inr (ys ! j)"
  using each_indexed_Inr [of f 0 xs ys] by (simp add: section_of_def)

lemma entities_try_sections:
  assumes "read_prop result ''predictions'' = JArr (p # ps)"
    and "extractEntities_try rt result = Inr out"
  shows "extractEntitiesFromResult rt result = out \<and>
    (\<exists>es prs ts bs. out = es @ prs @ ts @ bs
       \<and> section_of p ''entities'' (\<lambda>index. entity_of) = Inr es
       \<and> section_of p ''key_value_pairs'' (\<lambda>index. pair_entity) = Inr prs
       \<and> section_of p ''tables'' (table_entity rt) = Inr ts
       \<and> section_of p ''bounding_boxes'' box_entity = Inr bs)"
  using assms
  by (auto simp: extractEntitiesFromResult_def extractEntities_try_def has_predictions_nonempty
      entities_of_prediction_def split: sum.splits if_splits)

text \<open>
  The \<^verbatim>\<open>try\<close> block of entity extraction completes when \<^verbatim>\<open>predictions[0]\<close> is not
  null, no element of its arrays is null, and the row count of each table prints.
\<close>

lemma each_indexed_completes:
  "(\<And>j x. x \<in> set xs \<Longrightarrow> \<exists>y. f j x = Inr y) \<Longrightarrow> \<exists>ys. each_indexed f i xs = Inr ys"
proof (induction xs arbitrary: i)
  case Nil
  then show ?case by simp
next
  case (Cons x xs)
  from Cons.prems [of x i] obtain y where y: "f i x = Inr y" by auto
  from Cons.IH [of "Suc i"] Cons.prems obtain ys where "each_indexed f (Suc i) xs = Inr ys"
    by auto
  with y show ?case by simp
qed

lemma section_of_completes:
  "(\<And>xs j x. read_prop p k = JArr xs \<Longrightarrow> x \<in> set xs \<Longrightarrow> \<exists>y. f j x = Inr y) \<Longrightarrow>
     \<exists>ys. section_of p k f = Inr ys"
  by (cases "read_prop p k") (auto simp: section_of_def intro: each_indexed_completes)

lemma entities_try_completes:
  assumes "read_prop result ''predictions'' = JArr (p # ps)" and "\<not> nullish p"
    and elems: "\<And>k xs x. read_prop p k = JArr xs \<Longrightarrow> x \<in> set xs \<Longrightarrow> \<not> nullish x"
    and rows: "\<And>ts t. read_prop p ''tables'' = JArr ts \<Longrightarrow> t \<in> set ts \<Longrightarrow>
        \<exists>s. ToString rt (row_count t) = Inr s"
  shows "\<exists>out. extractEntities_try rt result = Inr out"
proof -
  have "\<exists>ys. section_of p ''entities'' (\<lambda>index. entity_of) = Inr ys"
    by (rule section_of_completes) (auto simp: entity_of_def dest: elems)
  moreover have "\<exists>ys. section_of p ''key_value_pairs'' (\<lambda>index. pair_entity) = Inr ys"
    by (rule section_of_completes) (auto simp: pair_entity_def dest: elems)
  moreover have "\<exists>ys. section_of p ''tables'' (table_entity rt) = Inr ys"
  proof (rule section_of_completes)
    fix xs j x assume a: "read_prop p ''tables'' = JArr xs" "x \<in> set xs"
    from rows [OF a] obtain s where "ToString rt (row_count x) = Inr s" by blast
    with elems [OF a] show "\<exists>y. table_entity rt j x = Inr y"
      by (simp add: table_entity_def)
  qed
  moreover have "\<exists>ys. section_of p ''bounding_boxes'' box_entity = Inr ys"
    by (rule section_of_completes) (auto simp: box_entity_def dest: elems)
  ultimately show ?thesis
    using assms(2) has_predictions_nonempty [OF assms(1), of rt]
    by (auto simp: extractEntities_try_def entities_of_prediction_def assms(1))
qed

lemma or_else_three: "or_else (or_else (or_else a b) c) d = first_truthy [a, b, c] d"
  by (simp add: or_else_def)

lemma entity_of_first_truthy:
  "entity_of e = Inr y \<Longrightarrow>
     y = \<lparr> etype = first_truthy [read_prop e ''type'', read_prop e ''label'', read_prop e ''class'']
               (JStr ''Unknown''),
           evalue = first_truthy [read_prop e ''value'', read_prop e ''text'', read_prop e ''content'']
               (JStr ''''),
           confidence = first_truthy [read_prop e ''confidence'', read_prop e ''score'',
               read_prop e ''probability''] (JNum 0) \<rparr>"
  by (cases "nullish e") (auto simp: entity_of_def or_else_three)

text \<open>
  C4, as stated, fails on an entity that has a \<^verbatim>\<open>type\<close> field: the source reads \<^verbatim>\<open>type\<close>
  before \<^verbatim>\<open>label\<close> and \<^verbatim>\<open>class\<close>. For the entity
  \<^verbatim>\<open>{type:"PERSON", label:"NAME", text:"Jane", score:0.9}\<close> the normalized type is
  \<^verbatim>\<open>PERSON\<close>, where the first present of \<^verbatim>\<open>label\<close>, \<^verbatim>\<open>class\<close> is \<^verbatim>\<open>NAME\<close>.
\<close>

theorem entity_type_field_counterexample:
  "extractEntitiesFromResult example_runtime person_payload =
     [\<lparr> etype = JStr ''PERSON'', evalue = JStr ''Jane'', confidence = JNum (9 / 10) \<rparr>] \<and>
   map specified_entity
     [JObj [(''type'', JStr ''PERSON''), (''label'', JStr ''NAME''), (''text'', JStr ''Jane''),
            (''score'', JNum (9 / 10))]] =
     [\<lparr> etype = JStr ''NAME'', evalue = JStr ''Jane'', confidence = JNum (9 / 10) \<rparr>]"
  by (simp add: extractEntitiesFromResult_def extractEntities_try_def has_predictions_def get_def
      person_payload_def entities_of_prediction_def section_of_def entity_of_def or_else_def
      specified_entity_def)

text \<open>
  C4, amended. When the \<^verbatim>\<open>try\<close> block of entity extraction completes, the entities
  of \<^verbatim>\<open>predictions[0].entities\<close> come first in the output, one per element and in
  order, and each has type the first truthy of \<^verbatim>\<open>type\<close>, \<^verbatim>\<open>label\<close>, \<^verbatim>\<open>class\<close>, else
  \<^verbatim>\<open>Unknown\<close>; value the first truthy of \<^verbatim>\<open>value\<close>, \<^verbatim>\<open>text\<close>, \<^verbatim>\<open>content\<close>, else the empty
  string; confidence the first truthy of \<^verbatim>\<open>confidence\<close>, \<^verbatim>\<open>score\<close>, \<^verbatim>\<open>probability\<close>,
  else 0.
\<close>

theorem entities_first_truthy:
  assumes "read_prop result ''predictions'' = JArr (p # ps)"
    and "read_prop p ''entities'' = JArr es"
    and "extractEntities_try rt result = Inr out"
  shows "extractEntitiesFromResult rt result = out \<and> length es \<le> length out \<and>
     (\<forall>i<length es. out ! i =
        \<lparr> etype = first_truthy [read_prop (es ! i) ''type'', read_prop (es ! i) ''label'',
               read_prop (es ! i) ''class''] (JStr ''Unknown''),
           evalue = first_truthy [read_prop (es ! i) ''value'', read_prop (es ! i) ''text'',
               read_prop (es ! i) ''content''] (JStr ''''),
           confidence = first_truthy [read_prop (es ! i) ''confidence'', read_prop (es ! i) ''score'',
               read_prop (es ! i) ''probability''] (JNum 0) \<rparr>)"
proof -
  from entities_try_sections [OF assms(1,3)] obtain ents prs ts bs
    where out: "out = ents @ prs @ ts @ bs"
      and sec: "section_of p ''entities'' (\<lambda>index. entity_of) = Inr ents"
      and res: "extractEntitiesFromResult rt result = out"
    by blast
  from section_of_length [OF sec] assms(2) have len: "length ents = length es"
    by (simp add: array_length_def)
  have "out ! i = \<lparr> etype = first_truthy [read_prop (es ! i) ''type'', read_prop (es ! i) ''label'',
               read_prop (es ! i) ''class''] (JStr ''Unknown''),
           evalue = first_truthy [read_prop (es ! i) ''value'', read_prop (es ! i) ''text'',
               read_prop (es ! i) ''content''] (JStr ''''),
           confidence = first_truthy [read_prop (es ! i) ''confidence'', read_prop (es ! i) ''score'',
               read_prop (es ! i) ''probability''] (JNum 0) \<rparr>" if "i < length es" for i
  proof -
    from section_of_elements [OF sec assms(2) that] have "entity_of (es ! i) = Inr (ents ! i)" .
    from entity_of_first_truthy [OF this] that len out show ?thesis
      by (simp add: nth_append)
  qed
  with res out len show ?thesis by simp
qed

lemma name_payload_try:
  "extractEntities_try example_runtime name_payload =
     Inr [\<lparr> etype = JStr ''NAME'', evalue = JStr ''Jane'', confidence = JNum (9 / 10) \<rparr>]"
  by (simp add: extractEntities_try_def has_predictions_def get_def
      name_payload_def entities_of_prediction_def section_of_def entity_of_def or_else_def)

theorem entities_first_truthy_witness:
  "extractEntitiesFromResult example_runtime name_payload ! 0 =
     \<lparr> etype = JStr ''NAME'', evalue = JStr ''Jane'', confidence = JNum (9 / 10) \<rparr>"
proof -
  let ?e = "JObj [(''label'', JStr ''NAME''), (''text'', JStr ''Jane''), (''score'', JNum (9 / 10))]"
  let ?p = "JObj [(''entities'', JArr [?e])]"
  have h1: "read_prop name_payload ''predictions'' = JArr (?p # [])"
    by (simp add: name_payload_def)
  have h2: "read_prop ?p ''entities'' = JArr [?e]" by simp
  from entities_first_truthy [OF h1 h2 name_payload_try] show ?thesis by simp
qed

lemma NumberToString_nat: "n < 2 ^ 32 \<Longrightarrow> NumberToString rt (of_nat n) = show_nat n"
proof -
  assume "n < 2 ^ 32"
  then have "n < 2 ^ 53" by simp
  then have "(of_nat n :: rat) < of_nat (2 ^ 53)" by (simp only: of_nat_less_iff)
  then have "\<bar>of_nat n :: rat\<bar> < 2 ^ 53" by simp
  then show ?thesis by (simp add: NumberToString_def is_integer_def)
qed

lemma row_count_table_rows: "table_rows t = Some n \<Longrightarrow> row_count t = JNum (of_nat n)"
  by (auto simp: table_rows_def row_count_def or_else_def opt_length_def
      split: jsval.splits if_splits)

lemma table_entity_shape:
  assumes "table_entity rt i t = Inr y"
  shows "etype y = JStr ''Table'' \<and>
     (\<forall>n. table_rows t = Some n \<and> n < 2 ^ 32 \<longrightarrow>
        evalue y = JStr (''Table '' @ show_nat (i + 1) @ '' ('' @ show_nat n @ '' rows)'')) \<and>
     (read_prop t ''confidence'' = JUndefined \<longrightarrow> confidence y = JNum 0)"
proof (intro conjI allI impI)
  show "etype y = JStr ''Table''"
    using assms by (auto simp: table_entity_def split: if_splits sum.splits)
next
  fix n assume n: "table_rows t = Some n \<and> n < 2 ^ 32"
  then have "ToString rt (row_count t) = Inr (show_nat n)"
    by (simp add: row_count_table_rows NumberToString_nat)
  with assms show "evalue y = JStr (''Table '' @ show_nat (i + 1) @ '' ('' @ show_nat n @ '' rows)'')"
    by (auto simp: table_entity_def split: if_splits)
next
  assume "read_prop t ''confidence'' = JUndefined"
  with assms show "confidence y = JNum 0"
    by (auto simp: table_entity_def or_else_def split: if_splits sum.splits)
qed

text \<open>
  C5, as stated, fails when an exception is raised anywhere in the extraction: for
  \<^verbatim>\<open>{"predictions":[{"tables":[{"rows":[1,2,3]}],"bounding_boxes":[null]}]}\<close> reading
  \<^verbatim>\<open>box.label\<close> throws after the table's entity was pushed, the \<^verbatim>\<open>catch\<close> returns the
  empty sequence, and no entity is emitted for the table.
\<close>

theorem tables_null_box_counterexample:
  "read_prop (elem0 (read_prop tables_null_box_payload ''predictions'')) ''tables'' =
     JArr [JObj [(''rows'', JArr [JNum 1, JNum 2, JNum 3])]] \<and>
   extractEntitiesFromResult example_runtime tables_null_box_payload = []"
  by (simp add: extractEntitiesFromResult_def extractEntities_try_def has_predictions_def get_def
      tables_null_box_payload_def entities_of_prediction_def section_of_def table_entity_def
      box_entity_def or_else_def row_count_def opt_length_def NumberToString_def is_integer_def)

text \<open>
  C5, amended. When the \<^verbatim>\<open>try\<close> block of entity extraction completes without an
  exception, the output holds, after the entities of \<^verbatim>\<open>entities\<close> and
  \<^verbatim>\<open>key_value_pairs\<close> and before those of \<^verbatim>\<open>bounding_boxes\<close>, exactly one entity per
  element of \<^verbatim>\<open>predictions[0].tables\<close>, in order. The entity of table \<open>i\<close> (from 0) has
  type \<^verbatim>\<open>Table\<close>; its value is \<^verbatim>\<open>Table {i + 1} ({n} rows)\<close>, \<open>n\<close> being the length of the
  table's \<^verbatim>\<open>rows\<close> or of its \<^verbatim>\<open>data\<close>, whichever is present (an array, of a length a
  JavaScript array can have); its confidence is 0 when the table has none.
\<close>

theorem tables_entities:
  assumes "read_prop result ''predictions'' = JArr (p # ps)"
    and "read_prop p ''tables'' = JArr ts"
    and "extractEntities_try rt result = Inr out"
  shows "\<exists>pre tabs post.
     extractEntitiesFromResult rt result = pre @ tabs @ post \<and>
     length pre = array_length (read_prop p ''entities'') + array_length (read_prop p ''key_value_pairs'') \<and>
     length tabs = length ts \<and>
     length post = array_length (read_prop p ''bounding_boxes'') \<and>
     (\<forall>i<length ts.
        etype (tabs ! i) = JStr ''Table'' \<and>
        (\<forall>n. table_rows (ts ! i) = Some n \<and> n < 2 ^ 32 \<longrightarrow>
           evalue (tabs ! i) = JStr (''Table '' @ show_nat (i + 1) @ '' ('' @ show_nat n @ '' rows)'')) \<and>
        (read_prop (ts ! i) ''confidence'' = JUndefined \<longrightarrow> confidence (tabs ! i) = JNum 0))"
proof -
  from entities_try_sections [OF assms(1,3)] obtain ents prs tabs bs
    where out: "out = ents @ prs @ tabs @ bs"
      and s1: "section_of p ''entities'' (\<lambda>index. entity_of) = Inr ents"
      and s2: "section_of p ''key_value_pairs'' (\<lambda>index. pair_entity) = Inr prs"
      and s3: "section_of p ''tables'' (table_entity rt) = Inr tabs"
      and s4: "section_of p ''bounding_boxes'' box_entity = Inr bs"
      and res: "extractEntitiesFromResult rt result = out"
    by blast
  have "extractEntitiesFromResult rt result = (ents @ prs) @ tabs @ bs"
    using res out by simp
  moreover have "length (ents @ prs) =
      array_length (read_prop p ''entities'') + array_length (read_prop p ''key_value_pairs'')"
    using section_of_length [OF s1] section_of_length [OF s2] by simp
  moreover have "length tabs = length ts"
    using section_of_length [OF s3] assms(2) by (simp add: array_length_def)
  moreover have "length bs = array_length (read_prop p ''bounding_boxes'')"
    using section_of_length [OF s4] .
  moreover have "\<forall>i<length ts.
        etype (tabs ! i) = JStr ''Table'' \<and>
        (\<forall>n. table_rows (ts ! i) = Some n \<and> n < 2 ^ 32 \<longrightarrow>
           evalue (tabs ! i) = JStr (''Table '' @ show_nat (i + 1) @ '' ('' @ show_nat n @ '' rows)'')) \<and>
        (read_prop (ts ! i) ''confidence'' = JUndefined \<longrightarrow> confidence (tabs ! i) = JNum 0)"
  proof (intro allI impI)
    fix i assume "i < length ts"
    from section_of_elements [OF s3 assms(2) this]
    have "table_entity rt i (ts ! i) = Inr (tabs ! i)" .
    then show "etype (tabs ! i) = JStr ''Table'' \<and>
        (\<forall>n. table_rows (ts ! i) = Some n \<and> n < 2 ^ 32 \<longrightarrow>
           evalue (tabs ! i) = JStr (''Table '' @ show_nat (i + 1) @ '' ('' @ show_nat n @ '' rows)'')) \<and>
        (read_prop (ts ! i) ''confidence'' = JUndefined \<longrightarrow> confidence (tabs ! i) = JNum 0)"
      by (rule table_entity_shape)
  qed
  ultimately show ?thesis by blast
qed

lemma tables_try: "extractEntities_try example_runtime tables_payload =
   Inr [\<lparr> etype = JStr ''Table'', evalue = JStr ''Table 1 (3 rows)'', confidence = JNum 0 \<rparr>]"
  by (simp add: extractEntities_try_def has_predictions_def get_def
      tables_payload_def entities_of_prediction_def section_of_def table_entity_def or_else_def
      row_count_def opt_length_def NumberToString_def is_integer_def show_nat.simps digit_char_def)

theorem tables_entities_witness:
  "extractEntitiesFromResult example_runtime tables_payload =
     [\<lparr> etype = JStr ''Table'', evalue = JStr ''Table 1 (3 rows)'', confidence = JNum 0 \<rparr>]"
proof -
  let ?t = "JObj [(''rows'', JArr [JNum 1, JNum 2, JNum 3])]"
  let ?p = "JObj [(''tables'', JArr [?t])]"
  have h1: "read_prop tables_payload ''predictions'' = JArr (?p # [])"
    by (simp add: tables_payload_def)
  have h2: "read_prop ?p ''tables'' = JArr [?t]" by simp
  from tables_entities [OF h1 h2 tables_try] obtain pre tabs post
    where eq: "extractEntitiesFromResult example_runtime tables_payload = pre @ tabs @ post"
      and lp: "length pre = array_length (read_prop ?p ''entities'')
          + array_length (read_prop ?p ''key_value_pairs'')"
      and lt: "length tabs = length [?t]"
      and lb: "length post = array_length (read_prop ?p ''bounding_boxes'')"
      and el: "\<forall>i<length [?t].
        etype (tabs ! i) = JStr ''Table'' \<and>
        (\<forall>n. table_rows ([?t] ! i) = Some n \<and> n < 2 ^ 32 \<longrightarrow>
           evalue (tabs ! i) = JStr (''Table '' @ show_nat (i + 1) @ '' ('' @ show_nat n @ '' rows)'')) \<and>
        (read_prop ([?t] ! i) ''confidence'' = JUndefined \<longrightarrow> confidence (tabs ! i) = JNum 0)"
    by blast
  from lp lb have empty: "pre = []" "post = []" by (simp_all add: array_length_def)
  from lt obtain y where tabs: "tabs = [y]" by (cases tabs) auto
  have rows: "table_rows ?t = Some 3 \<and> (3::nat) < 2 ^ 32" by (simp add: table_rows_def)
  from el have e0: "etype (tabs ! 0) = JStr ''Table'' \<and>
        (\<forall>n. table_rows ?t = Some n \<and> n < 2 ^ 32 \<longrightarrow>
           evalue (tabs ! 0) = JStr (''Table '' @ show_nat (0 + 1) @ '' ('' @ show_nat n @ '' rows)'')) \<and>
        (read_prop ?t ''confidence'' = JUndefined \<longrightarrow> confidence (tabs ! 0) = JNum 0)"
    by simp
  with rows have "evalue (tabs ! 0) = JStr (''Table '' @ show_nat (0 + 1) @ '' ('' @ show_nat 3 @ '' rows)'')"
    by blast
  then have v: "evalue y = JStr ''Table 1 (3 rows)''"
    by (simp add: tabs show_nat.simps digit_char_def)
  from e0 have t: "etype y = JStr ''Table''" and c: "confidence y = JNum 0"
    by (simp_all add: tabs)
  from t v c have "y = \<lparr> etype = JStr ''Table'', evalue = JStr ''Table 1 (3 rows)'', confidence = JNum 0 \<rparr>"
    by (cases y) simp
  with eq empty tabs show ?thesis by simp
qed

subsection \<open>Types of the normalized values\<close>

text \<open>
  Both functions catch every exception of their body, and a parsed 2xx payload is
  answered with status 200 whatever its shape.
\<close>

lemma extractText_caught:
  "extractText_try rt result = Inl e \<Longrightarrow>
     extractTextFromResult rt result = JStr ''Error extracting text''"
  by (simp add: extractTextFromResult_def)

lemma extractEntities_caught:
  "extractEntities_try rt result = Inl e \<Longrightarrow> extractEntitiesFromResult rt result = []"
  by (simp add: extractEntitiesFromResult_def)

lemma null_payload_fallbacks:
  "extractTextFromResult rt JNull = JStr ''Error extracting text'' \<and>
   extractEntitiesFromResult rt JNull = []"
  by (simp add: extractTextFromResult_def extractText_try_def extractEntitiesFromResult_def
      extractEntities_try_def has_predictions_def get_def)

lemma empty_payload_fallbacks:
  "extractTextFromResult rt (JObj []) = JStr ''No text extracted'' \<and>
   extractEntitiesFromResult rt (JObj []) = []"
  by (simp add: extractTextFromResult_def extractText_try_def extractEntitiesFromResult_def
      extractEntities_try_def has_predictions_def get_def text_of_top_level_def)

lemma respond_parsed_2xx:
  "ok r \<Longrightarrow> JSON_parse rt (body_text r) = Inr payload \<Longrightarrow>
     response_status (respond rt f r) = 200"
  by (simp add: respond_def)

text \<open>
  C6. \<^verbatim>\<open>extractTextFromResult\<close> is declared to return a string, but it returns a truthy
  field as it finds it: for the payload \<^verbatim>\<open>{"text": 5}\<close> the extracted text is the number
  5.
\<close>

theorem extractText_returns_number:
  "extractTextFromResult example_runtime number_payload = JNum 5"
  by (simp add: extractTextFromResult_def extractText_try_def has_predictions_def get_def
      number_payload_def text_of_top_level_def)

subsection \<open>Export\<close>

lemma serialize_elements_nth:
  "length (serialize_elements rt gap ind xs) = length xs \<and>
   (\<forall>i<length xs. serialize_elements rt gap ind xs ! i =
      (case serialize rt gap ind (xs ! i) of None \<Rightarrow> ''null'' | Some s \<Rightarrow> s))"
proof (induction xs)
  case Nil
  then show ?case by simp
next
  case (Cons x xs)
  show ?case
  proof (intro conjI allI impI)
    show "length (serialize_elements rt gap ind (x # xs)) = length (x # xs)"
      using Cons.IH by simp
  next
    fix i assume "i < length (x # xs)"
    then show "serialize_elements rt gap ind (x # xs) ! i =
      (case serialize rt gap ind ((x # xs) ! i) of None \<Rightarrow> ''null'' | Some s \<Rightarrow> s)"
      using Cons.IH by (cases i) auto
  qed
qed

lemma serialize_result_json:
  "\<exists>s. serialize rt gap ind (result_json r) = Some s"
  by (simp add: result_json_def)

lemma gap_two: "replicate 2 c = [c, c]"
  by (simp add: numeral_2_eq_2)

lemma dataStr_items:
  "\<exists>items. dataStr rt rs = Some (wrap_items ''  '' '''' ''['' '']'' items) \<and>
      length items = length (completedResults rs) \<and>
      (\<forall>i<length items. Some (items ! i) = serialize rt ''  '' ''  '' (result_json (completedResults rs ! i)))"
proof -
  let ?items = "serialize_elements rt ''  '' ''  '' (map result_json (completedResults rs))"
  have d: "dataStr rt rs = Some (wrap_items ''  '' '''' ''['' '']'' ?items)"
    by (simp add: dataStr_def JSON_stringify_def gap_two)
  have l: "length ?items = length (completedResults rs)"
    using serialize_elements_nth [of rt "''  ''" "''  ''" "map result_json (completedResults rs)"]
    by simp
  have e: "Some (?items ! i) = serialize rt ''  '' ''  '' (result_json (completedResults rs ! i))"
    if "i < length ?items" for i
  proof -
    from that l have i: "i < length (map result_json (completedResults rs))" by simp
    obtain s where s: "serialize rt ''  '' ''  '' (result_json (completedResults rs ! i)) = Some s"
      using serialize_result_json by blast
    from serialize_elements_nth [of rt "''  ''" "''  ''" "map result_json (completedResults rs)"] i
    have "?items ! i = (case serialize rt ''  '' ''  '' (map result_json (completedResults rs) ! i)
        of None \<Rightarrow> ''null'' | Some s \<Rightarrow> s)" by blast
    with i s show ?thesis by simp
  qed
  from d l e show ?thesis by blast
qed

lemma dataStr_none_completed:
  "\<forall>r\<in>set rs. status r \<noteq> completed \<Longrightarrow> dataStr rt rs = Some ''[]''"
proof -
  assume "\<forall>r\<in>set rs. status r \<noteq> completed"
  then have "completedResults rs = []" by (simp add: completedResults_def)
  then show ?thesis by (simp add: dataStr_def JSON_stringify_def wrap_items_def)
qed

text \<open>
  C8. The export serializes exactly the entries whose status is \<open>completed\<close>, in
  their order, and none in \<open>error\<close> or \<open>processing\<close>: the document is one JSON array with
  one member per completed entry, each the serialization of that entry. When no entry
  is completed the document is \<^verbatim>\<open>[]\<close>. The link offered for download carries the
  document.
\<close>

theorem downloadResults_exports_completed:
  "completedResults rs = filter (\<lambda>r. status r = completed) rs \<and>
   (\<forall>r. r \<in> set (completedResults rs) \<longleftrightarrow> r \<in> set rs \<and> status r = completed) \<and>
   (\<forall>r\<in>set (completedResults rs). status r \<noteq> error \<and> status r \<noteq> processing) \<and>
   (\<exists>items. dataStr rt rs = Some (wrap_items ''  '' '''' ''['' '']'' items) \<and>
      length items = length (completedResults rs) \<and>
      (\<forall>i<length items. Some (items ! i) = serialize rt ''  '' ''  '' (result_json (completedResults rs ! i)))) \<and>
   ((\<forall>r\<in>set rs. status r \<noteq> completed) \<longrightarrow> dataStr rt rs = Some ''[]'') \<and>
   (\<forall>doc. dataStr rt rs = Some doc \<longrightarrow>
      href (downloadResults rt rs) = ''data:application/json;charset=utf-8,'' @ encodeURIComponent rt doc)"
proof -
  have a: "completedResults rs = filter (\<lambda>r. status r = completed) rs"
    by (simp add: completedResults_def)
  have b: "\<forall>r. r \<in> set (completedResults rs) \<longleftrightarrow> r \<in> set rs \<and> status r = completed"
    by (simp add: completedResults_def)
  have c: "\<forall>r\<in>set (completedResults rs). status r \<noteq> error \<and> status r \<noteq> processing"
    by (simp add: completedResults_def)
  have f: "\<forall>doc. dataStr rt rs = Some doc \<longrightarrow>
      href (downloadResults rt rs) = ''data:application/json;charset=utf-8,'' @ encodeURIComponent rt doc"
    by (simp add: downloadResults_def)
  from a b c dataStr_items [of rt rs] dataStr_none_completed [of rs rt] f show ?thesis
    by blast
qed

theorem downloadResults_exports_completed_witness:
  "dataStr example_runtime [pending_entry, failed_entry] = Some ''[]'' \<and>
   (done_entry \<in> set (completedResults [pending_entry, done_entry, failed_entry])) \<and>
   (pending_entry \<notin> set (completedResults [pending_entry, done_entry, failed_entry]))"
proof -
  have none: "\<forall>r\<in>set [pending_entry, failed_entry]. status r \<noteq> completed"
    by (simp add: pending_entry_def failed_entry_def)
  have is_done: "done_entry \<in> set [pending_entry, done_entry, failed_entry] \<and> status done_entry = completed"
    by (simp add: done_entry_def)
  have pending: "status pending_entry \<noteq> completed"
    by (simp add: pending_entry_def)
  from downloadResults_exports_completed [of "[pending_entry, failed_entry]" example_runtime] none
  have "dataStr example_runtime [pending_entry, failed_entry] = Some ''[]''" by blast
  moreover
  from downloadResults_exports_completed [of "[pending_entry, done_entry, failed_entry]" example_runtime]
    is_done pending
  have "done_entry \<in> set (completedResults [pending_entry, done_entry, failed_entry]) \<and>
      pending_entry \<notin> set (completedResults [pending_entry, done_entry, failed_entry])" by blast
  ultimately show ?thesis by simp
qed

subsection \<open>Updates of the results list\<close>

lemma map_throwing_enumerate:
  "map_throwing (\<lambda>(i, r). if i = index then g r else Inr r) (enumerate n xs) = Inr ys \<Longrightarrow>
     length ys = length xs \<and>
     (\<forall>j<length xs. (n + j \<noteq> index \<longrightarrow> ys ! j = xs ! j) \<and>
                      (n + j = index \<longrightarrow> g (xs ! j) = Inr (ys ! j)))"
proof (induction xs arbitrary: n ys)
  case Nil
  then show ?case by simp
next
  case (Cons x xs)
  from Cons.prems obtain y rest
    where y: "(if n = index then g x else Inr x) = Inr y"
      and rest: "map_throwing (\<lambda>(i, r). if i = index then g r else Inr r) (enumerate (Suc n) xs) = Inr rest"
      and ys: "ys = y # rest"
    by (auto split: sum.splits)
  from Cons.IH [OF rest] have len: "length rest = length xs"
    and el: "\<And>j. j < length xs \<Longrightarrow> (Suc n + j \<noteq> index \<longrightarrow> rest ! j = xs ! j) \<and>
                      (Suc n + j = index \<longrightarrow> g (xs ! j) = Inr (rest ! j))"
    by auto
  show ?case
  proof (intro conjI allI impI)
    show "length ys = length (x # xs)" using len ys by simp
  next
    fix j assume "j < length (x # xs)" and "n + j \<noteq> index"
    then show "ys ! j = (x # xs) ! j"
      using y el ys by (cases j) (auto split: if_splits)
  next
    fix j assume "j < length (x # xs)" and "n + j = index"
    then show "g ((x # xs) ! j) = Inr (ys ! j)"
      using y el ys by (cases j) (auto split: if_splits)
  qed
qed

lemma settle_Inr:
  assumes "settle index outcome prev = Inr rs'"
  shows "length rs' = length prev"
    and "\<And>j. j < length prev \<Longrightarrow> j \<noteq> index \<Longrightarrow> rs' ! j = prev ! j"
    and "index < length prev \<Longrightarrow> replacement outcome (prev ! index) = Inr (rs' ! index)"
  using map_throwing_enumerate [of index "replacement outcome" 0 prev rs'] assms
  by (auto simp: settle_def)

lemma replacement_terminal:
  "replacement outcome r = Inr r' \<Longrightarrow> status r' = completed \<or> status r' = error"
  by (auto simp: replacement_def split: call_outcome.splits bool.splits if_splits)

lemma start_invariant: "run_invariant (start files)"
  by (simp add: run_invariant_def start_def initialResults_def)

lemma step_invariant:
  assumes "step s t" and "run_invariant s"
  shows "run_invariant t"
  using assms
proof (cases rule: step.cases)
  case (settled index outcome rs')
  note s = settle_Inr [OF settled(3)]
  show ?thesis
    unfolding run_invariant_def
  proof (intro allI impI)
    fix j assume "j < length (results t)"
    with s(1) settled(1) have j: "j < length (results s)" by simp
    show "status (results t ! j) = processing \<longleftrightarrow> j \<in> in_flight t"
    proof (cases "j = index")
      case True
      with j s(3) have "replacement outcome (results s ! index) = Inr (rs' ! index)" by simp
      from replacement_terminal [OF this] True settled(1) show ?thesis by auto
    next
      case False
      with j s(2) have "rs' ! j = results s ! j" by simp
      with False j assms(2) settled(1) show ?thesis by (auto simp: run_invariant_def)
    qed
  qed
qed

lemma reachable_invariant: "reachable files s \<Longrightarrow> run_invariant s"
  unfolding reachable_def
  by (induction rule: rtranclp_induct) (auto intro: start_invariant step_invariant)

lemma step_entries:
  assumes "step s t" and "run_invariant s"
  shows "length (results t) = length (results s) \<and>
     (\<forall>j<length (results s). results t ! j = results s ! j \<or>
        (status (results s ! j) = processing \<and>
         (status (results t ! j) = completed \<or> status (results t ! j) = error)))"
  using assms
proof (cases rule: step.cases)
  case (settled index outcome rs')
  note s = settle_Inr [OF settled(3)]
  have "results t ! j = results s ! j \<or>
        (status (results s ! j) = processing \<and>
         (status (results t ! j) = completed \<or> status (results t ! j) = error))"
    if j: "j < length (results s)" for j
  proof (cases "j = index")
    case True
    with j s(3) have "replacement outcome (results s ! index) = Inr (rs' ! index)" by simp
    from replacement_terminal [OF this] True settled(1,2) j assms(2) show ?thesis
      by (auto simp: run_invariant_def)
  next
    case False
    with j s(2) settled(1) show ?thesis by simp
  qed
  with s(1) settled(1) show ?thesis by simp
qed

lemma steps_entries:
  assumes "step\<^sup>*\<^sup>* s t" and "run_invariant s"
  shows "run_invariant t \<and> length (results t) = length (results s) \<and>
     (\<forall>j<length (results s). results t ! j = results s ! j \<or>
        (status (results s ! j) = processing \<and>
         (status (results t ! j) = completed \<or> status (results t ! j) = error)))"
  using assms
proof (induction rule: rtranclp_induct)
  case base
  then show ?case by simp
next
  case (step t u)
  from step.IH [OF step.prems] have inv: "run_invariant t"
    and len: "length (results t) = length (results s)"
    and ent: "\<And>j. j < length (results s) \<Longrightarrow> results t ! j = results s ! j \<or>
        (status (results s ! j) = processing \<and>
         (status (results t ! j) = completed \<or> status (results t ! j) = error))"
    by auto
  from step_entries [OF step.hyps(2) inv] have len': "length (results u) = length (results t)"
    and ent': "\<And>j. j < length (results t) \<Longrightarrow> results u ! j = results t ! j \<or>
        (status (results t ! j) = processing \<and>
         (status (results u ! j) = completed \<or> status (results u ! j) = error))"
    by auto
  have "results u ! j = results s ! j \<or>
        (status (results s ! j) = processing \<and>
         (status (results u ! j) = completed \<or> status (results u ! j) = error))"
    if j: "j < length (results s)" for j
    using ent [OF j] ent' [of j] j len by auto
  with step_invariant [OF step.hyps(2) inv] len len' show ?case by simp
qed

text \<open>
  C9. An update made when a call settles keeps the length of the results list and
  changes no entry other than the one at the call's own index. In a run, the steps of
  which are these updates, one per call in flight, each entry of any later state is
  either the entry as it was, or the entry was in \<open>processing\<close> and is now in
  \<open>completed\<close> or \<open>error\<close>: a status changes at most once, from \<open>processing\<close> to one
  terminal status, and an entry in a terminal status never changes again.
\<close>

theorem settle_own_index_status_monotonic:
  "(\<forall>index outcome prev rs'. settle index outcome prev = Inr rs' \<longrightarrow>
      length rs' = length prev \<and> (\<forall>j<length prev. j \<noteq> index \<longrightarrow> rs' ! j = prev ! j)) \<and>
   (\<forall>s t. reachable files s \<and> step\<^sup>*\<^sup>* s t \<longrightarrow>
      length (results t) = length (results s) \<and>
      (\<forall>j<length (results s). results t ! j = results s ! j \<or>
         (status (results s ! j) = processing \<and>
          (status (results t ! j) = completed \<or> status (results t ! j) = error))))"
proof (intro conjI allI impI)
  fix index outcome prev rs'
  assume "settle index outcome prev = Inr rs'"
  then show "length rs' = length prev" by (rule settle_Inr(1))
next
  fix index outcome prev rs' j
  assume "settle index outcome prev = Inr rs'" "j < length prev" "j \<noteq> index"
  then show "rs' ! j = prev ! j" by (rule settle_Inr(2))
next
  fix s t assume "reachable files s \<and> step\<^sup>*\<^sup>* s t"
  then show "length (results t) = length (results s)"
    using steps_entries [of s t] reachable_invariant [of files s] by blast
next
  fix s t j assume "reachable files s \<and> step\<^sup>*\<^sup>* s t" "j < length (results s)"
  then show "results t ! j = results s ! j \<or>
         (status (results s ! j) = processing \<and>
          (status (results t ! j) = completed \<or> status (results t ! j) = error))"
    using steps_entries [of s t] reachable_invariant [of files s] by blast
qed

theorem settle_own_index_status_monotonic_witness:
  "length [failed_entry] = length [pending_entry] \<and>
   length (results failed_state) = length (results (start [example_upload])) \<and>
   (results failed_state ! 0 = results (start [example_upload]) ! 0 \<or>
      (status (results (start [example_upload]) ! 0) = processing \<and>
       (status (results failed_state ! 0) = completed \<or> status (results failed_state ! 0) = error)))"
proof -
  have upd: "settle 0 Threw [pending_entry] = Inr [failed_entry]"
    by (simp add: settle_def replacement_def pending_entry_def failed_entry_def)
  have init: "results (start [example_upload]) = [pending_entry]"
    "in_flight (start [example_upload]) = {0}"
    by (simp_all add: start_def initialResults_def pending_entry_def example_upload_def)
  have "step (start [example_upload])
      \<lparr> results = [failed_entry], in_flight = in_flight (start [example_upload]) - {0} \<rparr>"
    by (rule step.settled [where outcome = Threw]) (simp_all add: init upd)
  then have "step (start [example_upload]) failed_state"
    by (simp add: init failed_state_def)
  then have run: "reachable [example_upload] (start [example_upload]) \<and>
      step\<^sup>*\<^sup>* (start [example_upload]) failed_state"
    by (simp add: reachable_def)
  have idx: "0 < length (results (start [example_upload]))" by (simp add: init)
  from settle_own_index_status_monotonic [of "[example_upload]"] upd run idx
  show ?thesis by blast
qed

end
